theory Spec2Isabelle
  imports Main "HOL-Library.Word"
begin

section \<open>Go values used by the query builder\<close>

text \<open>
  The query builder of \<open>pkg/models/querybuilder_sql.go\<close> assembles SQL text by string
  concatenation. Go strings are byte strings, modelled as \<open>string\<close>. Go's \<open>int\<close> is
  modelled as a 64-bit word wherever the code computes with it or compares it
  (pagination, the keys of an update); signed comparisons read the word with \<open>sint\<close>.
  Identifiers and counts that the code only passes on are of type \<open>int\<close>.
\<close>

type_synonym goint = "64 word"

text \<open>A non-nil Go \<open>error\<close> coming back from the database layer: \<open>sql.ErrNoRows\<close>, which
  the code compares against, or any other error, kept by its message. A nil error is
  \<open>None\<close> of \<open>dberr option\<close>.\<close>

datatype dberr = ErrNoRows | ErrOther string

datatype panic =
    PanicMsg string          \<comment> \<open>\<open>panic("...")\<close> with a message\<close>
  | PanicErr dberr           \<comment> \<open>\<open>panic(err)\<close>\<close>
  | NilDereference           \<comment> \<open>method call or field read through a nil pointer\<close>
  | ReflectPanic             \<comment> \<open>a panic raised inside package \<open>reflect\<close>\<close>
  | IndexOutOfRange          \<comment> \<open>slice index out of range\<close>

text \<open>The values passed as positional arguments (\<open>[]interface{}\<close>).\<close>

datatype sqlarg = ArgString string | ArgInt int

subsection \<open>The \<open>strings\<close> and \<open>strconv\<close> functions the code calls\<close>

text \<open>\<open>strings.Join(elems, sep)\<close>.\<close>

fun joinStrings :: "string list \<Rightarrow> string \<Rightarrow> string" where
  "joinStrings [] sep = []"
| "joinStrings [x] sep = x"
| "joinStrings (x # y # ys) sep = x @ sep @ joinStrings (y # ys) sep"

text \<open>\<open>strings.Split(s, sep)\<close> for a separator of one byte, as in every call of the code
  (\<open>" "\<close>, \<open>"_"\<close>, \<open>","\<close>). The result is never empty: \<open>Split("", " ")\<close> is \<open>[""]\<close>.\<close>

fun splitOn :: "char \<Rightarrow> string \<Rightarrow> string list" where
  "splitOn sep [] = [[]]"
| "splitOn sep (c # cs) =
     (if c = sep then [] # splitOn sep cs
      else (case splitOn sep cs of
              [] \<Rightarrow> [[c]]
            | w # ws \<Rightarrow> (c # w) # ws))"

text \<open>\<open>strings.TrimRight(s, cutset)\<close> and \<open>strings.Trim(s, cutset)\<close>: every leading
  and trailing byte that occurs in the cutset is removed.\<close>

definition trimLeft :: "string \<Rightarrow> string \<Rightarrow> string" where
  "trimLeft s cutset = dropWhile (\<lambda>c. c \<in> set cutset) s"

definition trimRight :: "string \<Rightarrow> string \<Rightarrow> string" where
  "trimRight s cutset = rev (dropWhile (\<lambda>c. c \<in> set cutset) (rev s))"

definition trim :: "string \<Rightarrow> string \<Rightarrow> string" where
  "trim s cutset = trimRight (trimLeft s cutset) cutset"

text \<open>\<open>strings.Repeat(s, count)\<close> for a count that is a length, hence not negative.\<close>

fun repeat :: "string \<Rightarrow> nat \<Rightarrow> string" where
  "repeat s 0 = []"
| "repeat s (Suc n) = s @ repeat s n"

text \<open>\<open>strconv.Itoa\<close>: the decimal digits, with a minus sign for a negative value.\<close>

definition digitChar :: "nat \<Rightarrow> char" where
  "digitChar d = ''0123456789'' ! d"

fun natDigits :: "nat \<Rightarrow> string" where
  "natDigits n = (if n < 10 then [digitChar n] else natDigits (n div 10) @ [digitChar (n mod 10)])"

definition itoa :: "int \<Rightarrow> string" where
  "itoa i = (if i < 0 then CHR ''-'' # natDigits (nat (- i)) else natDigits (nat i))"

text \<open>\<open>strings.HasPrefix\<close> and \<open>strings.Contains\<close>.\<close>

fun hasPrefix :: "string \<Rightarrow> string \<Rightarrow> bool" where
  "hasPrefix s [] = True"
| "hasPrefix [] (p # ps) = False"
| "hasPrefix (c # cs) (p # ps) = (c = p \<and> hasPrefix cs ps)"

fun containsStr :: "string \<Rightarrow> string \<Rightarrow> bool" where
  "containsStr [] sub = (sub = [])"
| "containsStr (c # cs) sub = (hasPrefix (c # cs) sub \<or> containsStr cs sub)"

text \<open>Element 0 of the result of \<open>strings.Split\<close>, which always exists.\<close>

definition firstField :: "char \<Rightarrow> string \<Rightarrow> string" where
  "firstField sep s = (case splitOn sep s of [] \<Rightarrow> [] | w # ws \<Rightarrow> w)"

section \<open>Find filter and pagination\<close>

text \<open>
  \<open>FindFilterType\<close> is generated from the GraphQL schema and its declaration is not
  among the sources. Its fields are those of the filter request: the search text, the
  page, the page size, the sort key and the direction, of which the code reads \<open>Q\<close>,
  \<open>Page\<close> and \<open>PerPage\<close>. Each is optional and read through a pointer, \<open>None\<close> being a
  nil pointer.
\<close>

record FindFilterType =
  Q :: "string option"
  Page :: "goint option"
  PerPage :: "goint option"
  Sort :: "string option"
  Direction :: "string option"

definition getPagination :: "FindFilterType option \<Rightarrow> panic + string" where
  "getPagination findFilter =
     (case findFilter of
        None \<Rightarrow> Inl (PanicMsg ''nil find filter for pagination'')
      | Some ff \<Rightarrow>
          (let page = (case Page ff of
                         None \<Rightarrow> 1
                       | Some p \<Rightarrow> if sint p < 1 then 1 else p);
               perPage0 = (case PerPage ff of None \<Rightarrow> 25 | Some pp \<Rightarrow> pp);
               perPage = (if sint perPage0 > 120 then 120
                          else if sint perPage0 < 1 then 1 else perPage0);
               page' = (page - 1) * perPage
           in Inr ('' LIMIT '' @ itoa (sint perPage) @ '' OFFSET '' @ itoa (sint page') @ '' '')))"

text \<open>
  Modelled from the spec: the methods \<open>GetSort\<close> and \<open>GetDirection\<close> of
  \<open>FindFilterType\<close> are called by the entity query builders but are not among the
  sources. The filter request has a sort key and a sort direction in {ASC, DESC} with
  default ASC; the requested sort key is used when present and the caller's default key
  otherwise.
\<close>

definition GetSort :: "FindFilterType \<Rightarrow> string \<Rightarrow> string" where
  "GetSort ff defaultSort = (case Sort ff of None \<Rightarrow> defaultSort | Some s \<Rightarrow> s)"

definition GetDirection :: "FindFilterType \<Rightarrow> string" where
  "GetDirection ff =
     (case Direction ff of
        None \<Rightarrow> ''ASC''
      | Some d \<Rightarrow> if d = ''ASC'' \<or> d = ''DESC'' then d else ''ASC'')"

section \<open>SQL fragments\<close>

definition getColumn :: "string \<Rightarrow> string \<Rightarrow> string" where
  "getColumn tableName columnName = tableName @ ''.'' @ columnName"

definition selectAll :: "string \<Rightarrow> string" where
  "selectAll tableName =
     (let idColumn = getColumn tableName ''*''
      in ''SELECT '' @ idColumn @ '' FROM '' @ tableName @ '' '')"

definition selectDistinctIDs :: "string \<Rightarrow> string" where
  "selectDistinctIDs tableName =
     (let idColumn = getColumn tableName ''id''
      in ''SELECT DISTINCT '' @ idColumn @ '' FROM '' @ tableName @ '' '')"

definition buildCountQuery :: "string \<Rightarrow> string" where
  "buildCountQuery query = ''SELECT COUNT(*) as count FROM ('' @ query @ '') as temp''"

text \<open>
  \<open>getSort\<close>. The package variable \<open>randomSortFloat\<close> is drawn once per process from
  the random number generator; its rendering by \<open>strconv.FormatFloat\<close> is the parameter
  \<open>randomSortString\<close>.
\<close>

definition getSort :: "string \<Rightarrow> string \<Rightarrow> string \<Rightarrow> string \<Rightarrow> string" where
  "getSort randomSortString sortKey direction0 tableName =
     (let direction = (if direction0 \<noteq> ''ASC'' \<and> direction0 \<noteq> ''DESC'' then ''ASC'' else direction0)
      in if containsStr sortKey ''_count'' then
           (let relationTableName = firstField CHR ''_'' sortKey;
                colName = getColumn relationTableName ''id''
            in '' ORDER BY COUNT(distinct '' @ colName @ '') '' @ direction)
         else if sortKey = ''filesize'' then
           (let colName = getColumn tableName ''size''
            in '' ORDER BY cast('' @ colName @ '' as integer) '' @ direction)
         else if sortKey = ''random'' then
           (let colName = getColumn tableName ''id''
            in '' ORDER BY '' @ ''(substr('' @ colName @ '' * '' @ randomSortString
                 @ '', length('' @ colName @ '') + 2))'' @ '' '' @ direction)
         else
           (let colName = getColumn tableName sortKey;
                additional =
                  (if tableName = ''scenes'' then
                     '', bitrate DESC, framerate DESC, rating DESC, duration DESC''
                   else if tableName = ''scene_markers'' then
                     '', scene_markers.scene_id ASC, scene_markers.seconds ASC''
                   else [])
            in if sortKey = ''name'' then
                 '' ORDER BY '' @ colName @ '' COLLATE NOCASE '' @ direction @ additional
               else '' ORDER BY '' @ colName @ '' '' @ direction @ additional))"

subsection \<open>Free-text search\<close>

definition dquote :: char where
  "dquote = CHR 0x22"

definition squote :: char where
  "squote = CHR 0x27"

text \<open>\<open>getSearch\<close>: the words of the query are concatenated into the SQL text.\<close>

definition getSearch :: "string list \<Rightarrow> string \<Rightarrow> string" where
  "getSearch columns q =
     (let queryWords = splitOn CHR '' '' q;
          trimmedQuery = trim q [dquote];
          likeClauses =
            (if trimmedQuery = q then
               foldl (\<lambda>acc word.
                        foldl (\<lambda>lc column. lc @ [column @ '' LIKE '' @ [squote] @ ''%'' @ word @ ''%'' @ [squote]])
                              acc columns)
                     [] queryWords
             else
               foldl (\<lambda>lc column. lc @ [column @ '' LIKE '' @ [squote] @ ''%'' @ trimmedQuery @ ''%'' @ [squote]])
                     [] columns);
          likes = joinStrings likeClauses '' OR ''
      in ''('' @ likes @ '')'')"

text \<open>\<open>getSearchBinding\<close>: the same clauses with a placeholder each, the words being
  returned as arguments.\<close>

definition getSearchBinding :: "string list \<Rightarrow> string \<Rightarrow> bool \<Rightarrow> string \<times> sqlarg list" where
  "getSearchBinding columns q negate =
     (let notStr = (if negate then '' NOT '' else []);
          binaryType = (if negate then '' AND '' else '' OR '');
          queryWords = splitOn CHR '' '' q;
          trimmedQuery = trim q [dquote];
          (likeClauses, args) =
            (if trimmedQuery = q then
               foldl (\<lambda>acc word.
                        foldl (\<lambda>(lc, as) column.
                                 (lc @ [column @ notStr @ '' LIKE ?''],
                                  as @ [ArgString (''%'' @ word @ ''%'')]))
                              acc columns)
                     ([], []) queryWords
             else
               foldl (\<lambda>(lc, as) column.
                        (lc @ [column @ notStr @ '' LIKE ?''],
                         as @ [ArgString (''%'' @ trimmedQuery @ ''%'')]))
                     ([], []) columns);
          likes = joinStrings likeClauses binaryType
      in (''('' @ likes @ '')'', args))"

subsection \<open>Criterion modifiers\<close>

text \<open>
  \<open>CriterionModifier\<close> is a string type generated from the GraphQL schema, with the
  methods \<open>String\<close> (the string itself) and \<open>IsValid\<close>. The generated declaration is
  not among the sources, so \<open>IsValid\<close> is the parameter \<open>isValid\<close>. The value of a
  criterion is an \<open>interface{}\<close>, of which the code distinguishes a \<open>[]string\<close>, an
  \<open>[]int\<close> and everything else: \<open>OtherSlice\<close> is a slice of any other element type
  (an \<open>[]int64\<close>, say), kept with its elements, and \<open>OtherValue\<close> a value that is not a
  slice. \<open>logger.Errorf\<close> is modelled by returning the list of messages logged. A
  length is never negative, so lengths and argument counts are natural numbers.
\<close>

type_synonym CriterionModifier = string

datatype critValue =
    StringSlice "string list"
  | IntSlice "int list"
  | OtherSlice "sqlarg list"
  | OtherValue

definition getInBinding :: "nat \<Rightarrow> string" where
  "getInBinding len =
     (let bindings = repeat ''?, '' len;
          bindings' = trimRight bindings '', ''
      in ''('' @ bindings' @ '')'')"

definition getSimpleCriterionClause ::
  "(CriterionModifier \<Rightarrow> bool) \<Rightarrow> CriterionModifier \<Rightarrow> string \<Rightarrow> (string \<times> nat) \<times> string list" where
  "getSimpleCriterionClause isValid criterionModifier rhs =
     (if isValid criterionModifier then
        (if criterionModifier = ''EQUALS'' then ((''= '' @ rhs, 1), [])
         else if criterionModifier = ''NOT_EQUALS'' then ((''!= '' @ rhs, 1), [])
         else if criterionModifier = ''GREATER_THAN'' then ((''> '' @ rhs, 1), [])
         else if criterionModifier = ''LESS_THAN'' then ((''< '' @ rhs, 1), [])
         else if criterionModifier = ''IS_NULL'' then ((''IS NULL'', 0), [])
         else if criterionModifier = ''NOT_NULL'' then ((''IS NOT NULL'', 0), [])
         else ((''= ?'', 1), [''todo'']))
      else ((''= ?'', 1), []))"

definition getCriterionModifierBinding ::
  "(CriterionModifier \<Rightarrow> bool) \<Rightarrow> CriterionModifier \<Rightarrow> critValue \<Rightarrow> (string \<times> nat) \<times> string list" where
  "getCriterionModifierBinding isValid criterionModifier val =
     (let len = (case val of
                   StringSlice x \<Rightarrow> length x
                 | IntSlice x \<Rightarrow> length x
                 | OtherSlice x \<Rightarrow> 1
                 | OtherValue \<Rightarrow> 1)
      in if isValid criterionModifier then
           (if criterionModifier \<in> set [''EQUALS'', ''NOT_EQUALS'', ''GREATER_THAN'', ''LESS_THAN'',
                                          ''IS_NULL'', ''NOT_NULL''] then
              getSimpleCriterionClause isValid criterionModifier ''?''
            else if criterionModifier = ''INCLUDES'' then ((''IN '' @ getInBinding len, len), [])
            else if criterionModifier = ''EXCLUDES'' then ((''NOT IN '' @ getInBinding len, len), [])
            else ((''= ?'', 1), [''todo'']))
         else ((''= ?'', 1), []))"

definition getIntCriterionWhereClause ::
  "(CriterionModifier \<Rightarrow> bool) \<Rightarrow> string \<Rightarrow> CriterionModifier \<Rightarrow> (string \<times> nat) \<times> string list" where
  "getIntCriterionWhereClause isValid column modifier =
     (let ((binding, count), logged) = getCriterionModifierBinding isValid modifier OtherValue
      in ((column @ '' '' @ binding, count), logged))"

section \<open>The database layer\<close>

text \<open>
  The code reaches the store through \<open>sqlx\<close>: the package-level handle \<open>database.DB\<close>
  and transactions (\<open>*sqlx.Tx\<close>) passed in by the caller. A transaction pointer is a
  \<open>nat option\<close>, \<open>None\<close> being nil. Each call is recorded in a log, in order, and the
  store answers a call from the log of the calls made before it: the answers of the
  store are the parameter \<open>env\<close>, one function per destination type. An answer \<open>Inl e\<close>
  is the error \<open>e\<close>, with the destination left untouched.
\<close>

datatype conn = DB | Tx nat

text \<open>
  The declaration of \<open>Studio\<close> is not among the sources. A studio is carried as its
  \<open>ID\<close> field, which the code reads, and the view that package \<open>reflect\<close> gives of all
  its fields in declaration order: the \<open>db\<close> tag and the dynamic value of each. Of a
  value, \<open>sqlGenKeys\<close> reads the dynamic type and whether the value is empty. A
  \<open>float64\<close> is its IEEE 754 bit pattern; a \<open>time.Time\<close> is its seconds and nanoseconds
  since the zero time; \<open>GoRef True\<close> is a nil pointer, slice, map, channel or function
  and \<open>GoRef False\<close> a non-nil one; \<open>GoOther\<close> is a value of any other type, a nil
  interface or the value of an unexported field, for all of which \<open>reflect\<close> panics.
\<close>

datatype govalue =
    GoString string
  | GoInt goint
  | GoFloat64 "64 word"
  | GoSQLiteTimestamp int int
  | GoSQLiteDate string bool
  | GoNullString string bool
  | GoNullBool bool bool
  | GoNullInt64 "64 word" bool
  | GoNullFloat64 "64 word" bool
  | GoRef bool
  | GoOther

type_synonym gostruct = "(string \<times> govalue) list"

record Studio =
  ID :: int
  reflectFields :: gostruct

datatype call =
    CallGet string "sqlarg list"
  | CallSelect string "sqlarg list"
  | CallQueryx string "sqlarg list"
  | CallExec string "sqlarg list"
  | CallNamedExec string Studio

type_synonym calllog = "(conn \<times> call) list"

text \<open>\<open>sql.Result\<close>, of which the code calls \<open>LastInsertId\<close> only.\<close>

type_synonym sqlresult = "dberr + int"

text \<open>\<open>*sqlx.Rows\<close>: the outcome of \<open>StructScan\<close> for each row that \<open>Next\<close> delivers,
  and the value of \<open>Err\<close> after the last one.\<close>

record rows =
  rowScans :: "(dberr + Studio) list"
  rowsErr :: "dberr option"

record sqlxEnv =
  getCount :: "calllog \<Rightarrow> conn \<Rightarrow> string \<Rightarrow> sqlarg list \<Rightarrow> dberr + int"
  getStudio :: "calllog \<Rightarrow> conn \<Rightarrow> string \<Rightarrow> sqlarg list \<Rightarrow> dberr + Studio"
  selectIds :: "calllog \<Rightarrow> conn \<Rightarrow> string \<Rightarrow> sqlarg list \<Rightarrow> dberr + int list"
  queryx :: "calllog \<Rightarrow> conn \<Rightarrow> string \<Rightarrow> sqlarg list \<Rightarrow> dberr + rows"
  exec :: "calllog \<Rightarrow> conn \<Rightarrow> string \<Rightarrow> sqlarg list \<Rightarrow> dberr + sqlresult"
  namedExec :: "calllog \<Rightarrow> conn \<Rightarrow> string \<Rightarrow> Studio \<Rightarrow> dberr + sqlresult"

text \<open>A method call through a transaction pointer dereferences it.\<close>

definition derefTx :: "nat option \<Rightarrow> panic + conn" where
  "derefTx tx = (case tx of None \<Rightarrow> Inl NilDereference | Some n \<Rightarrow> Inr (Tx n))"

section \<open>Running a find\<close>

definition runIdsQuery ::
  "sqlxEnv \<Rightarrow> string \<Rightarrow> sqlarg list \<Rightarrow> calllog \<Rightarrow> (int list \<times> dberr option) \<times> calllog" where
  "runIdsQuery env query args lg =
     (let lg' = lg @ [(DB, CallSelect query args)]
      in case selectIds env lg DB query args of
           Inl err \<Rightarrow> if err \<noteq> ErrNoRows then (([], Some err), lg') else (([], None), lg')
         | Inr result \<Rightarrow> ((result, None), lg'))"

definition runCountQuery ::
  "sqlxEnv \<Rightarrow> string \<Rightarrow> sqlarg list \<Rightarrow> calllog \<Rightarrow> (int \<times> dberr option) \<times> calllog" where
  "runCountQuery env query args lg =
     (let lg' = lg @ [(DB, CallGet query args)]
      in case getCount env lg DB query args of
           Inl err \<Rightarrow> if err \<noteq> ErrNoRows then ((0, Some err), lg') else ((0, None), lg')
         | Inr result \<Rightarrow> ((result, None), lg'))"

text \<open>\<open>executeFindQuery\<close>. The call of \<open>logger.Errorf\<close> before each panic writes to the
  application log only and is left out.\<close>

definition executeFindQuery ::
  "sqlxEnv \<Rightarrow> string \<Rightarrow> string \<Rightarrow> sqlarg list \<Rightarrow> string \<Rightarrow> string list \<Rightarrow> string list
     \<Rightarrow> calllog \<Rightarrow> (panic + (int list \<times> int)) \<times> calllog" where
  "executeFindQuery env tableName body0 args sortAndPagination whereClauses havingClauses lg =
     (let body1 = (if length whereClauses > 0
                   then body0 @ '' WHERE '' @ joinStrings whereClauses '' AND ''
                   else body0);
          body2 = body1 @ '' GROUP BY '' @ tableName @ ''.id '';
          body = (if length havingClauses > 0
                  then body2 @ '' HAVING '' @ joinStrings havingClauses '' AND ''
                  else body2);
          countQuery = buildCountQuery body;
          ((countResult, countErr), lg1) = runCountQuery env countQuery args lg;
          idsQuery = body @ sortAndPagination;
          ((idsResult, idsErr), lg2) = runIdsQuery env idsQuery args lg1
      in case countErr of
           Some e \<Rightarrow> (Inl (PanicErr e), lg2)
         | None \<Rightarrow>
             (case idsErr of
                Some e \<Rightarrow> (Inl (PanicErr e), lg2)
              | None \<Rightarrow> (Inr (idsResult, countResult), lg2)))"

text \<open>The struct \<open>queryBuilder\<close>; its fields carry the prefix \<open>qb_\<close>.\<close>

record queryBuilder =
  qb_tableName :: string
  qb_body :: string
  qb_whereClauses :: "string list"
  qb_havingClauses :: "string list"
  qb_args :: "sqlarg list"
  qb_sortAndPagination :: string

definition executeFind :: "sqlxEnv \<Rightarrow> queryBuilder \<Rightarrow> calllog \<Rightarrow> (panic + (int list \<times> int)) \<times> calllog" where
  "executeFind env qb lg =
     executeFindQuery env (qb_tableName qb) (qb_body qb) (qb_args qb) (qb_sortAndPagination qb)
       (qb_whereClauses qb) (qb_havingClauses qb) lg"

definition addWhere :: "queryBuilder \<Rightarrow> string list \<Rightarrow> queryBuilder" where
  "addWhere qb clauses = qb\<lparr>qb_whereClauses := qb_whereClauses qb @ clauses\<rparr>"

definition addHaving :: "queryBuilder \<Rightarrow> string list \<Rightarrow> queryBuilder" where
  "addHaving qb clauses = qb\<lparr>qb_havingClauses := qb_havingClauses qb @ clauses\<rparr>"

definition addArg :: "queryBuilder \<Rightarrow> sqlarg list \<Rightarrow> queryBuilder" where
  "addArg qb newArgs = qb\<lparr>qb_args := qb_args qb @ newArgs\<rparr>"

definition ensureTx :: "nat option \<Rightarrow> panic + unit" where
  "ensureTx tx = (if tx = None then Inl (PanicMsg ''must use a transaction'') else Inr ())"

text \<open>\<open>tx.Exec\<close>, \<open>tx.NamedExec\<close> and \<open>tx.Get\<close> on a transaction pointer.\<close>

definition txExec ::
  "sqlxEnv \<Rightarrow> nat option \<Rightarrow> string \<Rightarrow> sqlarg list \<Rightarrow> calllog \<Rightarrow> (panic + (dberr + sqlresult)) \<times> calllog" where
  "txExec env tx stmt args lg =
     (case derefTx tx of
        Inl p \<Rightarrow> (Inl p, lg)
      | Inr c \<Rightarrow> (Inr (exec env lg c stmt args), lg @ [(c, CallExec stmt args)]))"

definition txNamedExec ::
  "sqlxEnv \<Rightarrow> nat option \<Rightarrow> string \<Rightarrow> Studio \<Rightarrow> calllog \<Rightarrow> (panic + (dberr + sqlresult)) \<times> calllog" where
  "txNamedExec env tx stmt arg lg =
     (case derefTx tx of
        Inl p \<Rightarrow> (Inl p, lg)
      | Inr c \<Rightarrow> (Inr (namedExec env lg c stmt arg), lg @ [(c, CallNamedExec stmt arg)]))"

definition txGetStudio ::
  "sqlxEnv \<Rightarrow> nat option \<Rightarrow> string \<Rightarrow> sqlarg list \<Rightarrow> calllog \<Rightarrow> (panic + (dberr + Studio)) \<times> calllog" where
  "txGetStudio env tx query args lg =
     (case derefTx tx of
        Inl p \<Rightarrow> (Inl p, lg)
      | Inr c \<Rightarrow> (Inr (getStudio env lg c query args), lg @ [(c, CallGet query args)]))"

definition executeDeleteQuery ::
  "sqlxEnv \<Rightarrow> string \<Rightarrow> string \<Rightarrow> nat option \<Rightarrow> calllog \<Rightarrow> (panic + dberr option) \<times> calllog" where
  "executeDeleteQuery env tableName idStr tx lg =
     (if tx = None then (Inl (PanicMsg ''must use a transaction''), lg)
      else
        (let idColumnName = getColumn tableName ''id''
         in case txExec env tx (''DELETE FROM '' @ tableName @ '' WHERE '' @ idColumnName @ '' = ?'')
                   [ArgString idStr] lg of
              (Inl p, lg1) \<Rightarrow> (Inl p, lg1)
            | (Inr (Inl err), lg1) \<Rightarrow> (Inr (Some err), lg1)
            | (Inr (Inr r), lg1) \<Rightarrow> (Inr None, lg1)))"

section \<open>Keys of an update\<close>

text \<open>\<open>fmt.Sprintf("%s=:%s", key, key)\<close>.\<close>

definition keyClause :: "string \<Rightarrow> string" where
  "keyClause key = key @ ''=:'' @ key"

text \<open>\<open>t != 0\<close> on a \<open>float64\<close> is false for the two zeros, whose bits apart from the
  sign bit are all zero, and true for every other value, NaN among them.\<close>

definition float64NonZero :: "64 word \<Rightarrow> bool" where
  "float64NonZero t = (take_bit 63 t \<noteq> 0)"

fun sqlGenKeysLoop :: "gostruct \<Rightarrow> bool \<Rightarrow> string list \<Rightarrow> panic + string list" where
  "sqlGenKeysLoop [] partial query = Inr query"
| "sqlGenKeysLoop ((rawKey, v) # rest) partial query =
     (let key = firstField CHR '','' rawKey
      in if key = ''id'' then sqlGenKeysLoop rest partial query
         else
           (case v of
              GoString t \<Rightarrow>
                sqlGenKeysLoop rest partial
                  (if partial \<or> t \<noteq> [] then query @ [keyClause key] else query)
            | GoInt t \<Rightarrow>
                sqlGenKeysLoop rest partial
                  (if partial \<or> t \<noteq> 0 then query @ [keyClause key] else query)
            | GoFloat64 t \<Rightarrow>
                sqlGenKeysLoop rest partial
                  (if partial \<or> float64NonZero t then query @ [keyClause key] else query)
            | GoSQLiteTimestamp sec nsec \<Rightarrow>
                sqlGenKeysLoop rest partial
                  (if partial \<or> \<not> (sec = 0 \<and> nsec = 0) then query @ [keyClause key] else query)
            | GoSQLiteDate str valid \<Rightarrow>
                sqlGenKeysLoop rest partial
                  (if partial \<or> valid then query @ [keyClause key] else query)
            | GoNullString str valid \<Rightarrow>
                sqlGenKeysLoop rest partial
                  (if partial \<or> valid then query @ [keyClause key] else query)
            | GoNullBool b valid \<Rightarrow>
                sqlGenKeysLoop rest partial
                  (if partial \<or> valid then query @ [keyClause key] else query)
            | GoNullInt64 i valid \<Rightarrow>
                sqlGenKeysLoop rest partial
                  (if partial \<or> valid then query @ [keyClause key] else query)
            | GoNullFloat64 f valid \<Rightarrow>
                sqlGenKeysLoop rest partial
                  (if partial \<or> valid then query @ [keyClause key] else query)
            | GoRef isNil \<Rightarrow>
                sqlGenKeysLoop rest partial
                  (if \<not> isNil then query @ [keyClause key] else query)
            | GoOther \<Rightarrow> Inl ReflectPanic))"

definition sqlGenKeys :: "gostruct \<Rightarrow> bool \<Rightarrow> panic + string" where
  "sqlGenKeys i partial =
     (case sqlGenKeysLoop i partial [] of
        Inl p \<Rightarrow> Inl p
      | Inr query \<Rightarrow> Inr (joinStrings query '', ''))"

definition SQLGenKeys :: "gostruct \<Rightarrow> panic + string" where
  "SQLGenKeys i = sqlGenKeys i False"

definition SQLGenKeysPartial :: "gostruct \<Rightarrow> panic + string" where
  "SQLGenKeysPartial i = sqlGenKeys i True"

section \<open>The studio query builder\<close>

definition nl :: char where
  "nl = CHR 0x0A"

definition tab :: char where
  "tab = CHR 0x09"

definition Create ::
  "sqlxEnv \<Rightarrow> Studio \<Rightarrow> nat option \<Rightarrow> calllog \<Rightarrow> (panic + (Studio option \<times> dberr option)) \<times> calllog" where
  "Create env newStudio tx lg =
     (case ensureTx tx of
        Inl p \<Rightarrow> (Inl p, lg)
      | Inr u \<Rightarrow>
          (case txNamedExec env tx
                  (''INSERT INTO studios (image, checksum, name, url, created_at, updated_at)''
                     @ [nl, tab, tab, tab, tab]
                     @ ''VALUES (:image, :checksum, :name, :url, :created_at, :updated_at)''
                     @ [nl, tab, tab])
                  newStudio lg of
             (Inl p, lg1) \<Rightarrow> (Inl p, lg1)
           | (Inr (Inl err), lg1) \<Rightarrow> (Inr (None, Some err), lg1)
           | (Inr (Inr result), lg1) \<Rightarrow>
               (case result of
                  Inl err \<Rightarrow> (Inr (None, Some err), lg1)
                | Inr studioID \<Rightarrow>
                    (case txGetStudio env tx ''SELECT * FROM studios WHERE id = ? LIMIT 1''
                            [ArgInt studioID] lg1 of
                       (Inl p, lg2) \<Rightarrow> (Inl p, lg2)
                     | (Inr (Inl err), lg2) \<Rightarrow> (Inr (None, Some err), lg2)
                     | (Inr (Inr stored), lg2) \<Rightarrow> (Inr (Some stored, None), lg2)))))"

definition Update ::
  "sqlxEnv \<Rightarrow> Studio \<Rightarrow> nat option \<Rightarrow> calllog \<Rightarrow> (panic + (Studio option \<times> dberr option)) \<times> calllog" where
  "Update env updatedStudio tx lg =
     (case ensureTx tx of
        Inl p \<Rightarrow> (Inl p, lg)
      | Inr u \<Rightarrow>
          (case SQLGenKeys (reflectFields updatedStudio) of
             Inl p \<Rightarrow> (Inl p, lg)
           | Inr keys \<Rightarrow>
               (case txNamedExec env tx
                       (''UPDATE studios SET '' @ keys @ '' WHERE studios.id = :id'')
                       updatedStudio lg of
                  (Inl p, lg1) \<Rightarrow> (Inl p, lg1)
                | (Inr (Inl err), lg1) \<Rightarrow> (Inr (None, Some err), lg1)
                | (Inr (Inr result), lg1) \<Rightarrow>
                    (case txGetStudio env tx ''SELECT * FROM studios WHERE id = ? LIMIT 1''
                            [ArgInt (ID updatedStudio)] lg1 of
                       (Inl p, lg2) \<Rightarrow> (Inl p, lg2)
                     | (Inr (Inl err), lg2) \<Rightarrow> (Inr (None, Some err), lg2)
                     | (Inr (Inr stored), lg2) \<Rightarrow> (Inr (Some stored, None), lg2)))))"

definition Destroy ::
  "sqlxEnv \<Rightarrow> string \<Rightarrow> nat option \<Rightarrow> calllog \<Rightarrow> (panic + dberr option) \<times> calllog" where
  "Destroy env idStr tx lg =
     (case txExec env tx ''UPDATE scenes SET studio_id = null WHERE studio_id = ?''
             [ArgString idStr] lg of
        (Inl p, lg1) \<Rightarrow> (Inl p, lg1)
      | (Inr (Inl err), lg1) \<Rightarrow> (Inr (Some err), lg1)
      | (Inr (Inr r1), lg1) \<Rightarrow>
          (case txExec env tx ''UPDATE scraped_items SET studio_id = null WHERE studio_id = ?''
                  [ArgString idStr] lg1 of
             (Inl p, lg2) \<Rightarrow> (Inl p, lg2)
           | (Inr (Inl err), lg2) \<Rightarrow> (Inr (Some err), lg2)
           | (Inr (Inr r2), lg2) \<Rightarrow> executeDeleteQuery env ''studios'' idStr tx lg2))"

text \<open>The loop of \<open>queryStudios\<close> over the rows: the first failing \<open>StructScan\<close> ends it.\<close>

fun scanRows :: "(dberr + Studio) list \<Rightarrow> Studio list \<Rightarrow> dberr + Studio list" where
  "scanRows [] studios = Inr studios"
| "scanRows (Inl err # rest) studios = Inl err"
| "scanRows (Inr studio # rest) studios = scanRows rest (studios @ [studio])"

text \<open>\<open>queryStudios\<close>. \<open>Queryx\<close> returns nil rows with every error; when the error is
  \<open>sql.ErrNoRows\<close> the code goes on to \<open>defer rows.Close()\<close>, which dereferences them.\<close>

definition queryStudios ::
  "sqlxEnv \<Rightarrow> string \<Rightarrow> sqlarg list \<Rightarrow> nat option \<Rightarrow> calllog \<Rightarrow> (panic + (Studio list \<times> dberr option)) \<times> calllog" where
  "queryStudios env query args tx lg =
     (let c = (case tx of Some n \<Rightarrow> Tx n | None \<Rightarrow> DB);
          lg1 = lg @ [(c, CallQueryx query args)]
      in case queryx env lg c query args of
           Inl err \<Rightarrow>
             if err \<noteq> ErrNoRows then (Inr ([], Some err), lg1)
             else (Inl NilDereference, lg1)
         | Inr rs \<Rightarrow>
             (case scanRows (rowScans rs) [] of
                Inl err \<Rightarrow> (Inr ([], Some err), lg1)
              | Inr studios \<Rightarrow>
                  (case rowsErr rs of
                     Some err \<Rightarrow> (Inr ([], Some err), lg1)
                   | None \<Rightarrow> (Inr (studios, None), lg1))))"

definition queryStudio ::
  "sqlxEnv \<Rightarrow> string \<Rightarrow> sqlarg list \<Rightarrow> nat option \<Rightarrow> calllog \<Rightarrow> (panic + (Studio option \<times> dberr option)) \<times> calllog" where
  "queryStudio env query args tx lg =
     (case queryStudios env query args tx lg of
        (Inl p, lg1) \<Rightarrow> (Inl p, lg1)
      | (Inr (results, err), lg1) \<Rightarrow>
          (if err \<noteq> None \<or> length results < 1 then (Inr (None, err), lg1)
           else (case results of
                   [] \<Rightarrow> (Inr (None, err), lg1)
                 | r # rest \<Rightarrow> (Inr (Some r, None), lg1))))"

definition Find ::
  "sqlxEnv \<Rightarrow> int \<Rightarrow> nat option \<Rightarrow> calllog \<Rightarrow> (panic + (Studio option \<times> dberr option)) \<times> calllog" where
  "Find env i tx lg =
     queryStudio env ''SELECT * FROM studios WHERE id = ? LIMIT 1'' [ArgInt i] tx lg"

definition FindBySceneID ::
  "sqlxEnv \<Rightarrow> int \<Rightarrow> calllog \<Rightarrow> (panic + (Studio option \<times> dberr option)) \<times> calllog" where
  "FindBySceneID env sceneID lg =
     queryStudio env
       ''SELECT studios.* FROM studios JOIN scenes ON studios.id = scenes.studio_id WHERE scenes.id = ? LIMIT 1''
       [ArgInt sceneID] None lg"

definition FindByName ::
  "sqlxEnv \<Rightarrow> string \<Rightarrow> nat option \<Rightarrow> calllog \<Rightarrow> (panic + (Studio option \<times> dberr option)) \<times> calllog" where
  "FindByName env name tx lg =
     queryStudio env ''SELECT * FROM studios WHERE name = ? LIMIT 1'' [ArgString name] tx lg"

definition Count :: "sqlxEnv \<Rightarrow> calllog \<Rightarrow> (int \<times> dberr option) \<times> calllog" where
  "Count env lg = runCountQuery env (buildCountQuery ''SELECT studios.id FROM studios'') [] lg"

definition getStudioSort :: "string \<Rightarrow> FindFilterType option \<Rightarrow> string" where
  "getStudioSort randomSortString findFilter =
     (let (sortKey, direction) =
            (case findFilter of
               None \<Rightarrow> (''name'', ''ASC'')
             | Some ff \<Rightarrow> (GetSort ff ''name'', GetDirection ff))
      in getSort randomSortString sortKey direction ''studios'')"

definition All ::
  "sqlxEnv \<Rightarrow> string \<Rightarrow> calllog \<Rightarrow> (panic + (Studio list \<times> dberr option)) \<times> calllog" where
  "All env randomSortString lg =
     queryStudios env (selectAll ''studios'' @ getStudioSort randomSortString None) [] None lg"

text \<open>The loop at the end of \<open>Query\<close>: each id is looked up with \<open>Find\<close>, whose error is
  dropped, so that a studio that is not found is appended as a nil pointer.\<close>

fun findEach ::
  "sqlxEnv \<Rightarrow> int list \<Rightarrow> Studio option list \<Rightarrow> calllog \<Rightarrow> (panic + Studio option list) \<times> calllog" where
  "findEach env [] studios lg = (Inr studios, lg)"
| "findEach env (i # ids) studios lg =
     (case Find env i None lg of
        (Inl p, lg1) \<Rightarrow> (Inl p, lg1)
      | (Inr (studio, err), lg1) \<Rightarrow> findEach env ids (studios @ [studio]) lg1)"

text \<open>\<open>&FindFilterType{}\<close>.\<close>

definition emptyFindFilter :: FindFilterType where
  "emptyFindFilter = \<lparr>Q = None, Page = None, PerPage = None, Sort = None, Direction = None\<rparr>"

definition Query ::
  "sqlxEnv \<Rightarrow> string \<Rightarrow> FindFilterType option \<Rightarrow> calllog
     \<Rightarrow> (panic + (Studio option list \<times> int)) \<times> calllog" where
  "Query env randomSortString findFilter0 lg =
     (let findFilter = (case findFilter0 of None \<Rightarrow> emptyFindFilter | Some ff \<Rightarrow> ff);
          body = selectDistinctIDs ''studios''
                   @ [nl, tab, tab] @ ''left join scenes on studios.id = scenes.studio_id''
                   @ [tab, tab, nl, tab];
          whereClauses =
            (case Q findFilter of
               None \<Rightarrow> []
             | Some q \<Rightarrow> if q \<noteq> [] then [] @ [getSearch [''studios.name''] q] else [])
      in case getPagination (Some findFilter) of
           Inl p \<Rightarrow> (Inl p, lg)
         | Inr pagination \<Rightarrow>
             (let sortAndPagination = getStudioSort randomSortString (Some findFilter) @ pagination
              in case executeFindQuery env ''studios'' body [] sortAndPagination whereClauses [] lg of
                   (Inl p, lg1) \<Rightarrow> (Inl p, lg1)
                 | (Inr (idsResult, countResult), lg1) \<Rightarrow>
                     (case findEach env idsResult [] lg1 of
                        (Inl p, lg2) \<Rightarrow> (Inl p, lg2)
                      | (Inr studios, lg2) \<Rightarrow> (Inr (studios, countResult), lg2))))"

section \<open>Auto-tagging by name\<close>

subsection \<open>The paths that the integration test generates\<close>

definition testName :: string where
  "testName = ''Foo'' @ [squote] @ ''s Bar''"

definition testExtension :: string where
  "testExtension = ''.mp4''"

definition testSeparators :: "string list" where
  "testSeparators = [''.'', ''-'', ''_'', '' '']"

definition backslash :: char where
  "backslash = CHR 0x5C"

definition generateNamePatterns :: "string \<Rightarrow> string \<Rightarrow> string list" where
  "generateNamePatterns name separator =
     (let ret = [];
          ret = ret @ [name @ separator @ ''aaa'' @ testExtension];
          ret = ret @ [''aaa'' @ separator @ name @ testExtension];
          ret = ret @ [''aaa'' @ separator @ name @ separator @ ''bbb'' @ testExtension];
          ret = ret @ [''dir/'' @ name @ separator @ ''aaa'' @ testExtension];
          ret = ret @ [''dir'' @ [backslash] @ name @ separator @ ''aaa'' @ testExtension];
          ret = ret @ [name @ separator @ ''aaa/dir/bbb'' @ testExtension];
          ret = ret @ [name @ separator @ ''aaa'' @ [backslash] @ ''dir'' @ [backslash] @ ''bbb'' @ testExtension];
          ret = ret @ [''dir/'' @ name @ separator @ ''/aaa'' @ testExtension];
          ret = ret @ [''dir'' @ [backslash] @ name @ separator @ [backslash] @ ''aaa'' @ testExtension]
      in ret)"

definition generateFalseNamePattern :: "string \<Rightarrow> string \<Rightarrow> panic + string" where
  "generateFalseNamePattern name separator =
     (case splitOn CHR '' '' name of
        s0 # s1 # rest \<Rightarrow> Inr (s0 @ separator @ ''aaa'' @ separator @ s1 @ testExtension)
      | _ \<Rightarrow> Inl IndexOutOfRange)"

subsection \<open>The matcher\<close>

text \<open>
  Modelled from the spec: the name-pattern matcher \<open>matches(entityName, filePath)\<close> that the
  auto-tag tasks apply is not among the sources; only the integration test that
  exercises it is. The recognized separators are \<open>"."\<close>, \<open>"-"\<close>, \<open>"_"\<close> and \<open>" "\<close>.
  The pattern set of a name holds the name in its original casing, the name in lower
  case and, for every recognized separator, the name with its spaces replaced by that
  separator. A pattern matches when the path contains it flanked on each side by the
  start or end of the path, a recognized separator or a path delimiter (forward or
  backward slash), so that the name is a whole token. Matching is case-insensitive;
  letters are the ASCII letters.
\<close>

definition separatorChars :: string where
  "separatorChars = ''.-_ ''"

definition pathDelimiters :: string where
  "pathDelimiters = [CHR ''/'', backslash]"

definition isFlank :: "char \<Rightarrow> bool" where
  "isFlank c = (c \<in> set (separatorChars @ pathDelimiters))"

definition toLowerChar :: "char \<Rightarrow> char" where
  "toLowerChar c =
     (case map_of (zip ''ABCDEFGHIJKLMNOPQRSTUVWXYZ'' ''abcdefghijklmnopqrstuvwxyz'') c of
        None \<Rightarrow> c
      | Some l \<Rightarrow> l)"

definition toLower :: "string \<Rightarrow> string" where
  "toLower s = map toLowerChar s"

definition replaceSpaces :: "char \<Rightarrow> string \<Rightarrow> string" where
  "replaceSpaces sep name = map (\<lambda>c. if c = CHR '' '' then sep else c) name"

definition namePatternSet :: "string \<Rightarrow> string list" where
  "namePatternSet name =
     name # toLower name # map (\<lambda>sep. replaceSpaces sep name) separatorChars"

definition flankAfter :: "string \<Rightarrow> bool" where
  "flankAfter rest = (case rest of [] \<Rightarrow> True | c # cs \<Rightarrow> isFlank c)"

text \<open>The scan over the path: \<open>flankBefore\<close> tells whether the position reached is the
  start of the path or follows a separator or path delimiter.\<close>

fun tokenFrom :: "string \<Rightarrow> bool \<Rightarrow> string \<Rightarrow> bool" where
  "tokenFrom pat flankBefore [] = (flankBefore \<and> pat = [])"
| "tokenFrom pat flankBefore (c # cs) =
     ((flankBefore \<and> hasPrefix (c # cs) pat \<and> flankAfter (drop (length pat) (c # cs)))
      \<or> tokenFrom pat (isFlank c) cs)"

definition containsToken :: "string \<Rightarrow> string \<Rightarrow> bool" where
  "containsToken path pat = tokenFrom (toLower pat) True (toLower path)"

definition matches :: "string \<Rightarrow> string \<Rightarrow> bool" where
  "matches entityName filePath = list_ex (containsToken filePath) (namePatternSet entityName)"

section \<open>The terms of the specification\<close>

text \<open>The page and the page size as the specification resolves them: a page below 1 or
  absent is 1; the page size is clamped into 1 to 120 and is 25 when absent.\<close>

definition clampedPage :: "goint option \<Rightarrow> int" where
  "clampedPage p = (case p of None \<Rightarrow> 1 | Some v \<Rightarrow> max 1 (sint v))"

definition clampedPerPage :: "goint option \<Rightarrow> int" where
  "clampedPerPage p = (case p of None \<Rightarrow> 25 | Some v \<Rightarrow> min 120 (max 1 (sint v)))"

text \<open>The value that a 64-bit signed integer holds after an operation whose exact
  result is \<open>x\<close>.\<close>

definition wrap64 :: "int \<Rightarrow> int" where
  "wrap64 x = (x + 2 ^ 63) mod 2 ^ 64 - 2 ^ 63"

text \<open>The body shared by the count query and the id query of a find.\<close>

definition findBody :: "string \<Rightarrow> string \<Rightarrow> string list \<Rightarrow> string list \<Rightarrow> string" where
  "findBody tableName body0 whereClauses havingClauses =
     body0
     @ (if whereClauses = [] then [] else '' WHERE '' @ joinStrings whereClauses '' AND '')
     @ '' GROUP BY '' @ tableName @ ''.id ''
     @ (if havingClauses = [] then [] else '' HAVING '' @ joinStrings havingClauses '' AND '')"

text \<open>The outcome of one query of a find: no rows is the given empty result, every other
  error stays an error.\<close>

definition noRowsAs :: "'a \<Rightarrow> dberr + 'a \<Rightarrow> dberr + 'a" where
  "noRowsAs dflt r = (case r of Inl e \<Rightarrow> if e = ErrNoRows then Inr dflt else Inl e | Inr v \<Rightarrow> Inr v)"

text \<open>The eight modifiers that the specification names, and a parenthesised list of
  placeholders.\<close>

definition namedModifiers :: "CriterionModifier list" where
  "namedModifiers = [''EQUALS'', ''NOT_EQUALS'', ''GREATER_THAN'', ''LESS_THAN'',
                     ''IS_NULL'', ''NOT_NULL'', ''INCLUDES'', ''EXCLUDES'']"

definition placeholders :: "nat \<Rightarrow> string" where
  "placeholders n = ''('' @ joinStrings (replicate n ''?'') '', '' @ '')''"

text \<open>A query string wrapped in quotation marks.\<close>

definition wrappedInQuotes :: "string \<Rightarrow> bool" where
  "wrappedInQuotes q = (2 \<le> length q \<and> hd q = dquote \<and> last q = dquote)"

text \<open>The convention of an empty field value: the empty string, a zero int or float, the
  zero timestamp, a date or \<open>sql.Null*\<close> wrapper that is not valid, a nil pointer.\<close>

fun emptyValue :: "govalue \<Rightarrow> bool" where
  "emptyValue (GoString t) = (t = [])"
| "emptyValue (GoInt t) = (t = 0)"
| "emptyValue (GoFloat64 t) = (\<not> float64NonZero t)"
| "emptyValue (GoSQLiteTimestamp sec nsec) = (sec = 0 \<and> nsec = 0)"
| "emptyValue (GoSQLiteDate str valid) = (\<not> valid)"
| "emptyValue (GoNullString str valid) = (\<not> valid)"
| "emptyValue (GoNullBool b valid) = (\<not> valid)"
| "emptyValue (GoNullInt64 i valid) = (\<not> valid)"
| "emptyValue (GoNullFloat64 f valid) = (\<not> valid)"
| "emptyValue (GoRef isNil) = isNil"
| "emptyValue GoOther = False"

text \<open>The column that a field is stored in: its \<open>db\<close> tag up to the first comma.\<close>

definition columnOf :: "string \<times> govalue \<Rightarrow> string" where
  "columnOf f = firstField CHR '','' (fst f)"

definition setColumns :: "gostruct \<Rightarrow> string list" where
  "setColumns fs =
     map columnOf (filter (\<lambda>f. columnOf f \<noteq> ''id'' \<and> \<not> emptyValue (snd f)) fs)"

definition unsupportedField :: "string \<times> govalue \<Rightarrow> bool" where
  "unsupportedField f = (columnOf f \<noteq> ''id'' \<and> snd f = GoOther)"

text \<open>A store whose queries find nothing and whose statements succeed.\<close>

definition quietEnv :: sqlxEnv where
  "quietEnv = \<lparr>getCount = (\<lambda>lg c q a. Inr 0),
               getStudio = (\<lambda>lg c q a. Inl ErrNoRows),
               selectIds = (\<lambda>lg c q a. Inr []),
               queryx = (\<lambda>lg c q a. Inr \<lparr>rowScans = [], rowsErr = None\<rparr>),
               exec = (\<lambda>lg c q a. Inr (Inr 0)),
               namedExec = (\<lambda>lg c q s. Inr (Inr 1))\<rparr>"

text \<open>A validity check that accepts the eight named modifiers and nothing else.\<close>

definition isNamedModifier :: "CriterionModifier \<Rightarrow> bool" where
  "isNamedModifier m = (m \<in> set namedModifiers)"

text \<open>A studio stored with id 7: a nil image, a URL that is not valid and a zero
  creation time.\<close>

definition exampleStudio :: Studio where
  "exampleStudio =
     \<lparr>ID = 7,
      reflectFields =
        [(''id'', GoInt 7),
         (''image'', GoRef True),
         (''checksum'', GoString ''abc''),
         (''name'', GoNullString ''Acme'' True),
         (''url'', GoNullString [] False),
         (''created_at'', GoSQLiteTimestamp 0 0),
         (''updated_at'', GoSQLiteTimestamp 63700000000 0)]\<rparr>"

text \<open>The base projection and join of \<open>Query\<close>, and the WHERE fragments it assembles for
  a filter.\<close>

definition studioBody :: string where
  "studioBody = ''SELECT DISTINCT studios.id FROM studios '' @ [nl, tab, tab]
                  @ ''left join scenes on studios.id = scenes.studio_id'' @ [tab, tab, nl, tab]"

definition studioWhere :: "FindFilterType \<Rightarrow> string list" where
  "studioWhere ff =
     (case Q ff of None \<Rightarrow> [] | Some q \<Rightarrow> if q = [] then [] else [getSearch [''studios.name''] q])"

section \<open>Properties\<close>

subsection \<open>Pagination\<close>

lemma wrap64_signed_take_bit: "signed_take_bit 63 x = wrap64 x"
  unfolding wrap64_def
  by (simp add: signed_take_bit_eq_take_bit_shift take_bit_eq_mod)

lemma wrap64_id: "- (2 ^ 63) \<le> x \<Longrightarrow> x < 2 ^ 63 \<Longrightarrow> wrap64 x = x"
  unfolding wrap64_def by simp

lemma sint_mult_wrap64: "sint ((a::goint) * b) = wrap64 (sint a * sint b)"
  by (simp add: sint_word_ariths wrap64_signed_take_bit)

lemma sint_pred_no_wrap: 
  assumes "1 \<le> sint (a::goint)" shows "sint (a - 1) = sint a - 1"
proof -
  have "sint (a - 1) = wrap64 (sint a - 1)"
    by (simp add: sint_word_ariths wrap64_signed_take_bit)
  moreover have "sint a < 2 ^ 63" using sint_lt[of a] by simp
  ultimately show ?thesis using assms by (simp add: wrap64_id)
qed

lemma clampedPage_word:
  "sint (case p of None \<Rightarrow> (1::goint) | Some v \<Rightarrow> if sint v < 1 then 1 else v) = clampedPage p"
  by (simp add: clampedPage_def split: option.splits)

lemma clampedPerPage_word:
  "sint (let pp0 = (case p of None \<Rightarrow> (25::goint) | Some v \<Rightarrow> v)
         in if sint pp0 > 120 then 120 else if sint pp0 < 1 then 1 else pp0) = clampedPerPage p"
  by (simp add: clampedPerPage_def Let_def split: option.splits)

lemma clampedPage_ge: "1 \<le> clampedPage p"
  by (simp add: clampedPage_def split: option.splits)

lemma clampedPerPage_range: "1 \<le> clampedPerPage p \<and> clampedPerPage p \<le> 120"
  by (simp add: clampedPerPage_def split: option.splits)

lemma getPagination_Some:
  "getPagination (Some ff) =
     Inr ('' LIMIT '' @ itoa (clampedPerPage (PerPage ff)) @ '' OFFSET ''
          @ itoa (wrap64 ((clampedPage (Page ff) - 1) * clampedPerPage (PerPage ff))) @ '' '')"
proof -
  define page :: goint where "page = (case Page ff of None \<Rightarrow> 1 | Some v \<Rightarrow> if sint v < 1 then 1 else v)"
  define perPage :: goint where "perPage = (let pp0 = (case PerPage ff of None \<Rightarrow> (25::goint) | Some v \<Rightarrow> v)
         in if sint pp0 > 120 then 120 else if sint pp0 < 1 then 1 else pp0)"
  have p: "sint page = clampedPage (Page ff)" unfolding page_def by (rule clampedPage_word)
  have pp: "sint perPage = clampedPerPage (PerPage ff)" unfolding perPage_def by (rule clampedPerPage_word)
  have "1 \<le> sint page" using p clampedPage_ge by simp
  then have p1: "sint (page - 1) = clampedPage (Page ff) - 1" using p by (simp add: sint_pred_no_wrap)
  have off: "sint ((page - 1) * perPage) = wrap64 ((clampedPage (Page ff) - 1) * clampedPerPage (PerPage ff))"
    by (simp add: sint_mult_wrap64 p1 pp)
  have "getPagination (Some ff) = Inr ('' LIMIT '' @ itoa (sint perPage) @ '' OFFSET '' @ itoa (sint ((page - 1) * perPage)) @ '' '')"
    by (simp add: getPagination_def Let_def page_def perPage_def)
  then show ?thesis by (simp only: off pp)
qed

text \<open>
  Claim C3, as amended. For every find filter the pagination fragment is
  \<open>LIMIT perPage OFFSET offset\<close>, where \<open>perPage\<close> is the requested page size clamped into
  1 to 120 (25 when absent), so never zero and never unbounded, the page is the
  requested page with every value below 1, or an absent page, replaced by 1, and
  \<open>offset\<close> is \<open>(page - 1) * perPage\<close> as a 64-bit signed integer holds it: the exact
  product whenever that is below \<open>2^63\<close>, its wrap-around otherwise. A nil filter makes
  the resolver panic.
\<close>

theorem getPagination_fragment:
  "getPagination (Some ff) =
     Inr ('' LIMIT '' @ itoa (clampedPerPage (PerPage ff)) @ '' OFFSET ''
          @ itoa (wrap64 ((clampedPage (Page ff) - 1) * clampedPerPage (PerPage ff))) @ '' '')
   \<and> 1 \<le> clampedPerPage (PerPage ff) \<and> clampedPerPage (PerPage ff) \<le> 120
   \<and> 1 \<le> clampedPage (Page ff)
   \<and> ((clampedPage (Page ff) - 1) * clampedPerPage (PerPage ff) < 2 ^ 63 \<longrightarrow>
        wrap64 ((clampedPage (Page ff) - 1) * clampedPerPage (PerPage ff))
          = (clampedPage (Page ff) - 1) * clampedPerPage (PerPage ff))
   \<and> getPagination None = Inl (PanicMsg ''nil find filter for pagination'')"
proof -
  have nonneg: "0 \<le> (clampedPage (Page ff) - 1) * clampedPerPage (PerPage ff)"
    using clampedPage_ge[of "Page ff"] clampedPerPage_range[of "PerPage ff"] by simp
  have exact: "(clampedPage (Page ff) - 1) * clampedPerPage (PerPage ff) < 2 ^ 63 \<longrightarrow>
        wrap64 ((clampedPage (Page ff) - 1) * clampedPerPage (PerPage ff))
          = (clampedPage (Page ff) - 1) * clampedPerPage (PerPage ff)"
    using nonneg by (simp add: wrap64_id)
  show ?thesis
    using getPagination_Some[of ff] clampedPage_ge[of "Page ff"] clampedPerPage_range[of "PerPage ff"] exact
    by (simp add: getPagination_def)
qed

text \<open>
  The amended claim C3 at page 3 and a requested page size of 500: the product is in
  range and the fragment is \<open>LIMIT 120 OFFSET 240\<close>.
\<close>

theorem getPagination_fragment_witness:
  "getPagination (Some \<lparr>Q = None, Page = Some 3, PerPage = Some 500, Sort = None, Direction = None\<rparr>)
     = Inr '' LIMIT 120 OFFSET 240 ''
   \<and> (clampedPage (Some 3) - 1) * clampedPerPage (Some 500) < 2 ^ 63
   \<and> wrap64 ((clampedPage (Some 3) - 1) * clampedPerPage (Some 500)) = 240"
  using getPagination_fragment[of "\<lparr>Q = None, Page = Some 3, PerPage = Some 500, Sort = None, Direction = None\<rparr>"]
  by (simp add: clampedPage_def clampedPerPage_def itoa_def digitChar_def)

text \<open>
  Claim C3 as stated fails for a large page: at page \<open>2^63 - 1\<close> and page size 120 the
  code renders \<open>OFFSET -240\<close>, not the product \<open>(page - 1) * perPage\<close>.
\<close>

theorem getPagination_exact_offset_counterexample:
  "getPagination (Some \<lparr>Q = None, Page = Some 9223372036854775807, PerPage = Some 120, Sort = None, Direction = None\<rparr>)
     = Inr '' LIMIT 120 OFFSET -240 ''
   \<and> getPagination (Some \<lparr>Q = None, Page = Some 9223372036854775807, PerPage = Some 120, Sort = None, Direction = None\<rparr>)
     \<noteq> Inr ('' LIMIT '' @ itoa (clampedPerPage (Some 120)) @ '' OFFSET ''
          @ itoa ((clampedPage (Some 9223372036854775807) - 1) * clampedPerPage (Some 120)) @ '' '')"
  by (simp add: getPagination_def clampedPage_def clampedPerPage_def itoa_def digitChar_def)

subsection \<open>The two queries of a find\<close>

lemma findBody_steps:
  "(let body1 = (if length whereClauses > 0
                   then body0 @ '' WHERE '' @ joinStrings whereClauses '' AND ''
                   else body0);
        body2 = body1 @ '' GROUP BY '' @ tableName @ ''.id ''
    in (if length havingClauses > 0
                  then body2 @ '' HAVING '' @ joinStrings havingClauses '' AND ''
                  else body2)) = findBody tableName body0 whereClauses havingClauses"
  by (simp add: findBody_def Let_def)

lemma runCountQuery_log:
  "snd (runCountQuery env query args lg) = lg @ [(DB, CallGet query args)]"
  by (simp add: runCountQuery_def Let_def split: sum.splits)

lemma runIdsQuery_log:
  "snd (runIdsQuery env query args lg) = lg @ [(DB, CallSelect query args)]"
  by (simp add: runIdsQuery_def Let_def split: sum.splits)

lemma runCountQuery_result:
  "fst (runCountQuery env query args lg) =
     (case noRowsAs 0 (getCount env lg DB query args) of
        Inl e \<Rightarrow> (0, Some e) | Inr n \<Rightarrow> (n, None))"
  by (simp add: runCountQuery_def noRowsAs_def Let_def split: sum.splits)

lemma runIdsQuery_result:
  "fst (runIdsQuery env query args lg) =
     (case noRowsAs [] (selectIds env lg DB query args) of
        Inl e \<Rightarrow> ([], Some e) | Inr ids \<Rightarrow> (ids, None))"
  by (simp add: runIdsQuery_def noRowsAs_def Let_def split: sum.splits)

lemma executeFindQuery_unfold:
  "executeFindQuery env tableName body0 args sortAndPagination whereClauses havingClauses lg =
     (let b = findBody tableName body0 whereClauses havingClauses;
          rc = runCountQuery env (buildCountQuery b) args lg;
          ri = runIdsQuery env (b @ sortAndPagination) args (snd rc)
      in (case snd (fst rc) of
            Some e \<Rightarrow> Inl (PanicErr e)
          | None \<Rightarrow> (case snd (fst ri) of
                       Some e \<Rightarrow> Inl (PanicErr e)
                     | None \<Rightarrow> Inr (fst (fst ri), fst (fst rc))),
          snd ri))"
  unfolding executeFindQuery_def findBody_steps[symmetric] 
  by (simp add: Let_def split_beta split: option.splits)

lemma executeFindQuery_log:
  "snd (executeFindQuery env tableName body0 args sortAndPagination whereClauses havingClauses lg) =
     lg @ [(DB, CallGet (buildCountQuery (findBody tableName body0 whereClauses havingClauses)) args),
           (DB, CallSelect (findBody tableName body0 whereClauses havingClauses @ sortAndPagination) args)]"
  by (simp add: executeFindQuery_unfold Let_def runCountQuery_log runIdsQuery_log)

lemma executeFindQuery_result:
  "fst (executeFindQuery env tableName body0 args sortAndPagination whereClauses havingClauses lg) =
     (let b = findBody tableName body0 whereClauses havingClauses in
      case noRowsAs 0 (getCount env lg DB (buildCountQuery b) args) of
        Inl e \<Rightarrow> Inl (PanicErr e)
      | Inr n \<Rightarrow>
          (case noRowsAs [] (selectIds env (lg @ [(DB, CallGet (buildCountQuery b) args)]) DB
                               (b @ sortAndPagination) args) of
             Inl e \<Rightarrow> Inl (PanicErr e)
           | Inr ids \<Rightarrow> Inr (ids, n)))"
  by (simp add: executeFindQuery_unfold Let_def runCountQuery_log runIdsQuery_result runCountQuery_result
        split: sum.splits)

text \<open>
  Claim C1. A find executes exactly two statements, in this order and with the same
  argument list: the count query, which is \<open>SELECT COUNT(*)\<close> over the shared body, and the
  id query, which is the shared body followed by the sort-and-pagination fragment. The
  shared body is the base projection and joins, the WHERE fragments joined by AND, a
  GROUP BY on the id column of the primary table, which is present also when there are
  no fragments at all, and the HAVING fragments joined by AND.
\<close>

theorem find_queries_share_body:
  "snd (executeFindQuery env tableName body0 args sortAndPagination whereClauses havingClauses lg) =
     lg @ [(DB, CallGet (buildCountQuery (findBody tableName body0 whereClauses havingClauses)) args),
           (DB, CallSelect (findBody tableName body0 whereClauses havingClauses @ sortAndPagination) args)]
   \<and> buildCountQuery (findBody tableName body0 whereClauses havingClauses) =
       ''SELECT COUNT(*) as count FROM ('' @ findBody tableName body0 whereClauses havingClauses @ '') as temp''
   \<and> findBody tableName body0 [] [] = body0 @ '' GROUP BY '' @ tableName @ ''.id ''
   \<and> executeFind env qb lg =
       executeFindQuery env (qb_tableName qb) (qb_body qb) (qb_args qb) (qb_sortAndPagination qb)
         (qb_whereClauses qb) (qb_havingClauses qb) lg"
  by (simp add: executeFindQuery_log buildCountQuery_def findBody_def executeFind_def)

text \<open>
  Claim C6. The result of a find is decided by the outcomes of its two queries: "no
  rows" from the count query counts as zero and from the id query as the empty list;
  any other error of the count query, and else any other error of the id query, is a
  panic of the whole operation; only when neither query fails are the ids and the count
  returned, together.
\<close>

theorem find_no_rows_or_fatal:
  "fst (executeFindQuery env tableName body0 args sortAndPagination whereClauses havingClauses lg) =
     (let b = findBody tableName body0 whereClauses havingClauses in
      case noRowsAs 0 (getCount env lg DB (buildCountQuery b) args) of
        Inl e \<Rightarrow> Inl (PanicErr e)
      | Inr n \<Rightarrow>
          (case noRowsAs [] (selectIds env (lg @ [(DB, CallGet (buildCountQuery b) args)]) DB
                               (b @ sortAndPagination) args) of
             Inl e \<Rightarrow> Inl (PanicErr e)
           | Inr ids \<Rightarrow> Inr (ids, n)))
   \<and> noRowsAs (0::int) (Inl ErrNoRows) = Inr 0
   \<and> noRowsAs ([]::int list) (Inl ErrNoRows) = Inr []
   \<and> noRowsAs d (Inl (ErrOther msg)) = Inl (ErrOther msg)
   \<and> noRowsAs d (Inr v) = Inr v"
  by (simp add: executeFindQuery_result noRowsAs_def)

subsection \<open>Criterion modifiers\<close>

lemma joinStrings_Cons: "ys \<noteq> [] \<Longrightarrow> joinStrings (x # ys) sep = x @ sep @ joinStrings ys sep"
  by (cases ys) simp_all

lemma repeat_placeholders:
  "repeat ''?, '' (Suc n) = joinStrings (replicate (Suc n) ''?'') '', '' @ '', ''"
proof (induction n)
  case 0
  show ?case by simp
next
  case (Suc n)
  have "repeat ''?, '' (Suc (Suc n)) = ''?, '' @ repeat ''?, '' (Suc n)" by simp
  also have "\<dots> = ''?, '' @ joinStrings (replicate (Suc n) ''?'') '', '' @ '', ''"
    by (simp only: Suc.IH)
  also have "\<dots> = joinStrings (replicate (Suc (Suc n)) ''?'') '', '' @ '', ''"
    by simp
  finally show ?case .
qed

lemma joinStrings_placeholders_last:
  "\<exists>ys. joinStrings (replicate (Suc n) ''?'') '', '' = ys @ ''?''"
proof (induction n)
  case 0
  show ?case by simp
next
  case (Suc n)
  then obtain ys where "joinStrings (replicate (Suc n) ''?'') '', '' = ys @ ''?''" by blast
  then have "joinStrings (replicate (Suc (Suc n)) ''?'') '', '' = (''?, '' @ ys) @ ''?''"
    by simp
  then show ?case by blast
qed

lemma trimRight_placeholders:
  "trimRight (ys @ ''?'' @ '', '') '', '' = ys @ ''?''"
  by (simp add: trimRight_def)

lemma getInBinding_placeholders: "getInBinding n = placeholders n"
proof (cases n)
  case 0
  then show ?thesis by (simp add: getInBinding_def placeholders_def trimRight_def)
next
  case (Suc m)
  obtain ys where ys: "joinStrings (replicate (Suc m) ''?'') '', '' = ys @ ''?''"
    using joinStrings_placeholders_last by blast
  have "trimRight (repeat ''?, '' (Suc m)) '', '' = ys @ ''?''"
    unfolding repeat_placeholders ys using trimRight_placeholders[of ys] by simp
  then show ?thesis
    using Suc ys by (simp add: getInBinding_def placeholders_def Let_def)
qed

lemma count_joinStrings_placeholders:
  "length (filter (\<lambda>c. c = CHR ''?'') (joinStrings (replicate n ''?'') '', '')) = n"
proof (induction n)
  case 0
  show ?case by simp
next
  case (Suc n)
  show ?case
  proof (cases n)
    case 0
    then show ?thesis by simp
  next
    case (Suc m)
    then have "joinStrings (replicate (Suc n) ''?'') '', '' = ''?, '' @ joinStrings (replicate n ''?'') '', ''"
      by simp
    then show ?thesis using Suc.IH by simp
  qed
qed

lemma count_placeholders: "length (filter (\<lambda>c. c = CHR ''?'') (placeholders n)) = n"
  by (simp add: placeholders_def count_joinStrings_placeholders)

lemma simple_clause_named:
  assumes "isValid m"
  shows "getSimpleCriterionClause isValid m ''?'' =
     (if m = ''EQUALS'' then ((''= ?'', 1), [])
      else if m = ''NOT_EQUALS'' then ((''!= ?'', 1), [])
      else if m = ''GREATER_THAN'' then ((''> ?'', 1), [])
      else if m = ''LESS_THAN'' then ((''< ?'', 1), [])
      else if m = ''IS_NULL'' then ((''IS NULL'', 0), [])
      else if m = ''NOT_NULL'' then ((''IS NOT NULL'', 0), [])
      else ((''= ?'', 1), [''todo'']))"
  using assms by (simp add: getSimpleCriterionClause_def)

lemma binding_valid:
  assumes "isValid m"
  shows "getCriterionModifierBinding isValid m v =
     (let len = (case v of
                   StringSlice x \<Rightarrow> length x
                 | IntSlice x \<Rightarrow> length x
                 | OtherSlice x \<Rightarrow> 1
                 | OtherValue \<Rightarrow> 1)
      in if m = ''EQUALS'' then ((''= ?'', 1), [])
         else if m = ''NOT_EQUALS'' then ((''!= ?'', 1), [])
         else if m = ''GREATER_THAN'' then ((''> ?'', 1), [])
         else if m = ''LESS_THAN'' then ((''< ?'', 1), [])
         else if m = ''IS_NULL'' then ((''IS NULL'', 0), [])
         else if m = ''NOT_NULL'' then ((''IS NOT NULL'', 0), [])
         else if m = ''INCLUDES'' then ((''IN '' @ placeholders len, len), [])
         else if m = ''EXCLUDES'' then ((''NOT IN '' @ placeholders len, len), [])
         else ((''= ?'', 1), [''todo'']))"
  using assms
  unfolding getCriterionModifierBinding_def Let_def getInBinding_placeholders
  by (auto simp: getSimpleCriterionClause_def)

lemma binding_invalid:
  "\<not> isValid m \<Longrightarrow> getCriterionModifierBinding isValid m v = ((''= ?'', 1), [])"
  by (simp add: getCriterionModifierBinding_def Let_def)

lemma placeholders_one: "placeholders (Suc 0) = ''(?)''"
  by (simp add: placeholders_def)

text \<open>
  Claim C4, as amended. Where the eight named modifiers are valid: EQUALS, NOT_EQUALS,
  GREATER_THAN and LESS_THAN render as \<open>= ?\<close>, \<open>!= ?\<close>, \<open>> ?\<close> and \<open>< ?\<close> with one argument;
  IS_NULL and NOT_NULL as \<open>IS NULL\<close> and \<open>IS NOT NULL\<close> with none; INCLUDES and EXCLUDES as
  \<open>IN (?, ...)\<close> and \<open>NOT IN (?, ...)\<close> with as many placeholders and arguments as the value
  has elements when the value is a \<open>[]string\<close> or an \<open>[]int\<close>, and as \<open>IN (?)\<close> and
  \<open>NOT IN (?)\<close> with one argument for any other value, a slice of another element type
  included, whatever its length. Every other valid modifier falls back to \<open>= ?\<close> with one
  argument and a message is logged; every invalid modifier falls back to \<open>= ?\<close> with one
  argument and nothing is logged. None of them is an error.
\<close>

theorem criterion_modifier_rendering:
  assumes "\<forall>m \<in> set namedModifiers. isValid m"
  shows "getCriterionModifierBinding isValid ''EQUALS'' v = ((''= ?'', 1), [])
   \<and> getCriterionModifierBinding isValid ''NOT_EQUALS'' v = ((''!= ?'', 1), [])
   \<and> getCriterionModifierBinding isValid ''GREATER_THAN'' v = ((''> ?'', 1), [])
   \<and> getCriterionModifierBinding isValid ''LESS_THAN'' v = ((''< ?'', 1), [])
   \<and> getCriterionModifierBinding isValid ''IS_NULL'' v = ((''IS NULL'', 0), [])
   \<and> getCriterionModifierBinding isValid ''NOT_NULL'' v = ((''IS NOT NULL'', 0), [])
   \<and> getCriterionModifierBinding isValid ''INCLUDES'' (StringSlice strs)
        = ((''IN '' @ placeholders (length strs), length strs), [])
   \<and> getCriterionModifierBinding isValid ''INCLUDES'' (IntSlice ints)
        = ((''IN '' @ placeholders (length ints), length ints), [])
   \<and> getCriterionModifierBinding isValid ''INCLUDES'' (OtherSlice elems) = ((''IN (?)'', 1), [])
   \<and> getCriterionModifierBinding isValid ''INCLUDES'' OtherValue = ((''IN (?)'', 1), [])
   \<and> getCriterionModifierBinding isValid ''EXCLUDES'' (StringSlice strs)
        = ((''NOT IN '' @ placeholders (length strs), length strs), [])
   \<and> getCriterionModifierBinding isValid ''EXCLUDES'' (IntSlice ints)
        = ((''NOT IN '' @ placeholders (length ints), length ints), [])
   \<and> getCriterionModifierBinding isValid ''EXCLUDES'' (OtherSlice elems) = ((''NOT IN (?)'', 1), [])
   \<and> getCriterionModifierBinding isValid ''EXCLUDES'' OtherValue = ((''NOT IN (?)'', 1), [])
   \<and> length (filter (\<lambda>c. c = CHR ''?'') (placeholders n)) = n
   \<and> (isValid m \<and> m \<notin> set namedModifiers \<longrightarrow>
        getCriterionModifierBinding isValid m v = ((''= ?'', 1), [''todo'']))
   \<and> (\<not> isValid m \<longrightarrow> getCriterionModifierBinding isValid m v = ((''= ?'', 1), []))"
proof -
  have valid: "isValid ''EQUALS''" "isValid ''NOT_EQUALS''" "isValid ''GREATER_THAN''"
    "isValid ''LESS_THAN''" "isValid ''IS_NULL''" "isValid ''NOT_NULL''"
    "isValid ''INCLUDES''" "isValid ''EXCLUDES''"
    using assms by (simp_all add: namedModifiers_def)
  have other: "isValid m \<and> m \<notin> set namedModifiers \<longrightarrow>
        getCriterionModifierBinding isValid m v = ((''= ?'', 1), [''todo''])"
    by (simp add: binding_valid namedModifiers_def Let_def)
  show ?thesis
    using other binding_invalid[of isValid m v]
    by (simp add: binding_valid valid count_placeholders placeholders_one Let_def)
qed

text \<open>
  The amended claim C4 for a validity check that rejects only \<open>BOGUS\<close>: INCLUDES over an
  \<open>[]int\<close> of three values and over a slice of another type of three values, IS_NULL,
  the valid but unhandled \<open>INCLUDES_ALL\<close>, and the invalid \<open>BOGUS\<close>.
\<close>

theorem criterion_modifier_rendering_witness:
  "list_all (\<lambda>m. m \<noteq> ''BOGUS'') namedModifiers
   \<and> getCriterionModifierBinding (\<lambda>m. m \<noteq> ''BOGUS'') ''INCLUDES'' (IntSlice [4, 5, 6]) = ((''IN (?, ?, ?)'', 3), [])
   \<and> getCriterionModifierBinding (\<lambda>m. m \<noteq> ''BOGUS'') ''INCLUDES''
         (OtherSlice [ArgInt 4, ArgInt 5, ArgInt 6]) = ((''IN (?)'', 1), [])
   \<and> getCriterionModifierBinding (\<lambda>m. m \<noteq> ''BOGUS'') ''IS_NULL'' OtherValue = ((''IS NULL'', 0), [])
   \<and> getCriterionModifierBinding (\<lambda>m. m \<noteq> ''BOGUS'') ''INCLUDES_ALL'' (IntSlice [4, 5, 6]) = ((''= ?'', 1), [''todo''])
   \<and> getCriterionModifierBinding (\<lambda>m. m \<noteq> ''BOGUS'') ''BOGUS'' (IntSlice [4, 5, 6]) = ((''= ?'', 1), [])"
proof -
  have h: "\<forall>m \<in> set namedModifiers. (\<lambda>m. m \<noteq> ''BOGUS'') m"
    by (simp add: namedModifiers_def)
  show ?thesis
    using h
      criterion_modifier_rendering[OF h, where v="IntSlice [4, 5, 6]" and m="''INCLUDES_ALL''"
        and ints="[4, 5, 6]" and elems="[ArgInt 4, ArgInt 5, ArgInt 6]"]
      criterion_modifier_rendering[OF h, where v="OtherValue" and m="''BOGUS''"]
      criterion_modifier_rendering[OF h, where v="IntSlice [4, 5, 6]" and m="''BOGUS''"]
    by (simp add: namedModifiers_def placeholders_def)
qed

text \<open>
  Claim C4 as stated fails for an invalid modifier: the fallback is taken but nothing is
  logged. It fails as well for INCLUDES over a slice that is neither a \<open>[]string\<close> nor an
  \<open>[]int\<close>: three values of an \<open>[]int64\<close> get one placeholder and one argument, not three.
\<close>

theorem invalid_modifier_not_logged_counterexample:
  "\<not> isNamedModifier ''BOGUS''
   \<and> getCriterionModifierBinding isNamedModifier ''BOGUS'' OtherValue = ((''= ?'', 1), [])
   \<and> snd (getCriterionModifierBinding isNamedModifier ''BOGUS'' OtherValue) = []
   \<and> isNamedModifier ''INCLUDES''
   \<and> getCriterionModifierBinding isNamedModifier ''INCLUDES''
         (OtherSlice [ArgInt 4, ArgInt 5, ArgInt 6]) = ((''IN (?)'', 1), [])
   \<and> getCriterionModifierBinding isNamedModifier ''INCLUDES''
         (OtherSlice [ArgInt 4, ArgInt 5, ArgInt 6]) \<noteq> ((''IN (?, ?, ?)'', 3), [])"
  by (simp add: isNamedModifier_def namedModifiers_def getCriterionModifierBinding_def
        getInBinding_def trimRight_def)

subsection \<open>Search clauses\<close>

lemma foldl_pair_append:
  "foldl (\<lambda>(lc, as) column. (lc @ [f column], as @ [g column])) (lc0, as0) columns
     = (lc0 @ map f columns, as0 @ map g columns)"
  by (induction columns arbitrary: lc0 as0) simp_all

lemma foldl_words_pair_append:
  "foldl (\<lambda>acc word. foldl (\<lambda>(lc, as) column. (lc @ [f word column], as @ [g word column])) acc columns)
         (lc0, as0) ws
     = (lc0 @ concat (map (\<lambda>w. map (f w) columns) ws),
        as0 @ concat (map (\<lambda>w. map (g w) columns) ws))"
proof (induction ws arbitrary: lc0 as0)
  case Nil
  show ?case by simp
next
  case (Cons w ws)
  show ?case
    by (simp add: foldl_pair_append Cons.IH)
qed

lemma dropWhile_id: "dropWhile P xs = xs \<longleftrightarrow> (xs = [] \<or> \<not> P (hd xs))"
proof (cases xs)
  case Nil
  then show ?thesis by simp
next
  case (Cons a list)
  have "length (dropWhile P list) \<le> length list" by (rule length_dropWhile_le)
  then have "dropWhile P list \<noteq> a # list" by auto
  then show ?thesis using Cons by simp
qed

lemma dropWhile_shorter:
  assumes "dropWhile P xs \<noteq> xs" shows "length (dropWhile P xs) < length xs"
proof (cases xs)
  case Nil
  then show ?thesis using assms by simp
next
  case (Cons a list)
  then have "P a" using assms by (auto split: if_splits)
  then have "dropWhile P xs = dropWhile P list" using Cons by simp
  moreover have "length (dropWhile P list) \<le> length list" by (rule length_dropWhile_le)
  ultimately show ?thesis using Cons by simp
qed

lemma trimLeft_id: "trimLeft s cutset = s \<longleftrightarrow> (s = [] \<or> hd s \<notin> set cutset)"
  by (simp add: trimLeft_def dropWhile_id)

lemma trimRight_id: "trimRight s cutset = s \<longleftrightarrow> (s = [] \<or> last s \<notin> set cutset)"
proof -
  have "trimRight s cutset = s \<longleftrightarrow> dropWhile (\<lambda>c. c \<in> set cutset) (rev s) = rev s"
    unfolding trimRight_def by (metis rev_rev_ident)
  also have "\<dots> \<longleftrightarrow> (rev s = [] \<or> hd (rev s) \<notin> set cutset)"
    by (rule dropWhile_id)
  also have "\<dots> \<longleftrightarrow> (s = [] \<or> last s \<notin> set cutset)"
    by (cases "s = []") (simp_all add: hd_rev)
  finally show ?thesis .
qed

lemma length_trimLeft: "length (trimLeft s cutset) \<le> length s"
  by (simp add: trimLeft_def length_dropWhile_le)

lemma length_trimRight: "length (trimRight s cutset) \<le> length s"
  using length_dropWhile_le[of "\<lambda>c. c \<in> set cutset" "rev s"] by (simp add: trimRight_def)

lemma trim_id: "trim s cutset = s \<longleftrightarrow> (s = [] \<or> (hd s \<notin> set cutset \<and> last s \<notin> set cutset))"
proof (cases "trimLeft s cutset = s")
  case True
  then have "trim s cutset = trimRight s cutset" by (simp add: trim_def)
  then show ?thesis using True by (auto simp: trimRight_id trimLeft_id)
next
  case False
  then have "length (trimLeft s cutset) < length s"
    unfolding trimLeft_def by (rule dropWhile_shorter)
  then have "length (trim s cutset) < length s"
    using length_trimRight[of "trimLeft s cutset" cutset] by (simp add: trim_def)
  then have "trim s cutset \<noteq> s" by auto
  then show ?thesis using False by (auto simp: trimLeft_id)
qed

lemma trim_dquote_changes:
  "trim q [dquote] \<noteq> q \<longleftrightarrow> (q \<noteq> [] \<and> (hd q = dquote \<or> last q = dquote))"
  by (auto simp: trim_id)

lemma splitOn_nonempty: "splitOn sep s \<noteq> []"
  by (induction s) (auto split: list.splits)

lemma splitOn_join: "joinStrings (splitOn sep s) [sep] = s"
proof (induction s)
  case Nil
  show ?case by simp
next
  case (Cons c s)
  obtain w ws where ws: "splitOn sep s = w # ws"
    using splitOn_nonempty[of sep s] by (cases "splitOn sep s") auto
  show ?case
  proof (cases "c = sep")
    case True
    then show ?thesis using Cons.IH ws by simp
  next
    case False
    then show ?thesis using Cons.IH ws by (cases ws) simp_all
  qed
qed

lemma splitOn_no_sep: "w \<in> set (splitOn sep s) \<Longrightarrow> sep \<notin> set w"
  by (induction s arbitrary: w) (auto split: if_splits list.splits)

lemma splitOn_words: "list_all (\<lambda>w. sep \<notin> set w) (splitOn sep s)"
  using splitOn_no_sep[of _ sep s] by (auto simp: list_all_iff)

lemma all_same_replicate: "\<forall>x \<in> set xs. x = d \<Longrightarrow> xs = replicate (length xs) d"
  by (induction xs) simp_all

lemma takeWhile_cutset_replicate:
  "takeWhile (\<lambda>c. c \<in> set [d]) xs = replicate (length (takeWhile (\<lambda>c. c \<in> set [d]) xs)) d"
proof (rule all_same_replicate)
  show "\<forall>x \<in> set (takeWhile (\<lambda>c. c \<in> set [d]) xs). x = d"
    using set_takeWhileD[of _ "\<lambda>c. c \<in> set [d]" xs] by auto
qed

lemma rev_split: "xs = rev (dropWhile P (rev xs)) @ rev (takeWhile P (rev xs))"
  by (metis rev_append rev_rev_ident takeWhile_dropWhile_id)

lemma trim_decompose:
  "\<exists>a b. q = replicate a d @ trim q [d] @ replicate b d"
proof -
  let ?P = "\<lambda>c. c \<in> set [d]"
  let ?m = "dropWhile ?P q"
  have q: "q = takeWhile ?P q @ ?m" by simp
  have m: "?m = rev (dropWhile ?P (rev ?m)) @ rev (takeWhile ?P (rev ?m))"
    by (rule rev_split)
  have t: "trim q [d] = rev (dropWhile ?P (rev ?m))"
    by (simp add: trim_def trimLeft_def trimRight_def)
  have r1: "takeWhile ?P q = replicate (length (takeWhile ?P q)) d"
    by (rule takeWhile_cutset_replicate)
  have "takeWhile ?P (rev ?m) = replicate (length (takeWhile ?P (rev ?m))) d"
    by (rule takeWhile_cutset_replicate)
  then have r2: "rev (takeWhile ?P (rev ?m)) = replicate (length (takeWhile ?P (rev ?m))) d"
    by (metis rev_replicate)
  have "q = takeWhile ?P q @ trim q [d] @ rev (takeWhile ?P (rev ?m))"
    using q m t by metis
  then have "q = replicate (length (takeWhile ?P q)) d @ trim q [d]
                   @ replicate (length (takeWhile ?P (rev ?m))) d"
    using r1 r2 by metis
  then show ?thesis by blast
qed

lemma trim_ends:
  assumes "trim q [d] \<noteq> []"
  shows "hd (trim q [d]) \<noteq> d \<and> last (trim q [d]) \<noteq> d"
proof -
  let ?P = "\<lambda>c. c \<in> set [d]"
  let ?m = "dropWhile ?P q"
  have t: "trim q [d] = rev (dropWhile ?P (rev ?m))"
    by (simp add: trim_def trimLeft_def trimRight_def)
  then have ne: "dropWhile ?P (rev ?m) \<noteq> []" using assms by simp
  then have "\<not> ?P (hd (dropWhile ?P (rev ?m)))" by (rule hd_dropWhile)
  then have l: "last (trim q [d]) \<noteq> d" using t ne by (simp add: last_rev)
  have "?m = rev (dropWhile ?P (rev ?m)) @ rev (takeWhile ?P (rev ?m))"
    by (rule rev_split)
  then have m: "?m = trim q [d] @ rev (takeWhile ?P (rev ?m))" using t by metis
  then have mne: "?m \<noteq> []" using assms by (metis append_is_Nil_conv)
  have "hd ?m = hd (trim q [d])" using m assms by (metis hd_append2)
  moreover have "\<not> ?P (hd ?m)" using mne by (rule hd_dropWhile)
  ultimately have "hd (trim q [d]) \<noteq> d" by simp
  then show ?thesis using l by simp
qed

lemma getSearchBinding_closed:
  "getSearchBinding columns q negate =
     (let terms = (if trim q [dquote] = q then splitOn CHR '' '' q else [trim q [dquote]])
      in (''('' @ joinStrings
                    (concat (map (\<lambda>w. map (\<lambda>c. c @ (if negate then '' NOT '' else []) @ '' LIKE ?'') columns) terms))
                    (if negate then '' AND '' else '' OR '')
               @ '')'',
          concat (map (\<lambda>w. map (\<lambda>c. ArgString (''%'' @ w @ ''%'')) columns) terms)))"
  unfolding getSearchBinding_def Let_def
  by (simp add: foldl_pair_append foldl_words_pair_append)

text \<open>
  Claim C5, as amended. When the query string begins or ends with a quotation mark (in
  particular when it is wrapped in quotation marks), its leading and trailing quotation
  marks are stripped and there is one clause per column, bound to the phrase between
  percent signs; otherwise the query is split at every single space, empty words
  included, and there is one clause per pair of a word and a column, in the order of
  the words, each bound to the word between percent signs. The clauses use NOT LIKE and
  are joined by AND when negated, and use LIKE and are joined by OR when not.
\<close>

theorem search_binding_clauses:
  "getSearchBinding columns q negate =
     (let phrase = (q \<noteq> [] \<and> (hd q = dquote \<or> last q = dquote));
          terms = (if phrase then [trim q [dquote]] else splitOn CHR '' '' q);
          likeOp = (if negate then '' NOT  LIKE ?'' else '' LIKE ?'');
          joiner = (if negate then '' AND '' else '' OR '')
      in (''('' @ joinStrings (concat (map (\<lambda>w. map (\<lambda>c. c @ likeOp) columns) terms)) joiner @ '')'',
          concat (map (\<lambda>w. map (\<lambda>c. ArgString (''%'' @ w @ ''%'')) columns) terms)))
   \<and> (wrappedInQuotes q \<longrightarrow> q \<noteq> [] \<and> (hd q = dquote \<or> last q = dquote))
   \<and> (\<exists>a b. q = replicate a dquote @ trim q [dquote] @ replicate b dquote)
   \<and> (trim q [dquote] = [] \<or> hd (trim q [dquote]) \<noteq> dquote \<and> last (trim q [dquote]) \<noteq> dquote)
   \<and> joinStrings (splitOn CHR '' '' q) '' '' = q
   \<and> list_all (\<lambda>w. CHR '' '' \<notin> set w) (splitOn CHR '' '' q)"
proof -
  have tr: "(\<exists>a b. q = replicate a dquote @ trim q [dquote] @ replicate b dquote)
     \<and> (trim q [dquote] = [] \<or> hd (trim q [dquote]) \<noteq> dquote \<and> last (trim q [dquote]) \<noteq> dquote)"
    using trim_decompose[of q dquote] trim_ends[of q dquote] by blast
  have sp: "joinStrings (splitOn CHR '' '' q) '' '' = q
     \<and> list_all (\<lambda>w. CHR '' '' \<notin> set w) (splitOn CHR '' '' q)"
    using splitOn_join[of "CHR '' ''" q] splitOn_words[of "CHR '' ''" q] by simp
  have ph: "(trim q [dquote] = q) = (\<not> (q \<noteq> [] \<and> (hd q = dquote \<or> last q = dquote)))"
    using trim_dquote_changes[of q] by blast
  have w: "wrappedInQuotes q \<longrightarrow> q \<noteq> [] \<and> (hd q = dquote \<or> last q = dquote)"
    by (auto simp: wrappedInQuotes_def)
  have main: "getSearchBinding columns q negate =
     (let phrase = (q \<noteq> [] \<and> (hd q = dquote \<or> last q = dquote));
          terms = (if phrase then [trim q [dquote]] else splitOn CHR '' '' q);
          likeOp = (if negate then '' NOT  LIKE ?'' else '' LIKE ?'');
          joiner = (if negate then '' AND '' else '' OR '')
      in (''('' @ joinStrings (concat (map (\<lambda>w. map (\<lambda>c. c @ likeOp) columns) terms)) joiner @ '')'',
          concat (map (\<lambda>w. map (\<lambda>c. ArgString (''%'' @ w @ ''%'')) columns) terms)))"
    unfolding getSearchBinding_closed ph Let_def by (cases negate) auto
  show ?thesis
    using main w tr sp by blast
qed

text \<open>
  The amended claim C5 for a quoted phrase, negated, and for two words separated by two
  spaces, not negated: the empty word between the spaces has its clauses too.
\<close>

theorem search_binding_clauses_witness:
  "wrappedInQuotes [dquote, CHR ''a'', CHR '' '', CHR ''b'', dquote]
   \<and> getSearchBinding [''t.x'', ''t.y''] [dquote, CHR ''a'', CHR '' '', CHR ''b'', dquote] True
       = (''(t.x NOT  LIKE ? AND t.y NOT  LIKE ?)'', [ArgString ''%a b%'', ArgString ''%a b%''])
   \<and> getSearchBinding [''t.x'', ''t.y''] ''a  b'' False
       = (''(t.x LIKE ? OR t.y LIKE ? OR t.x LIKE ? OR t.y LIKE ? OR t.x LIKE ? OR t.y LIKE ?)'',
          [ArgString ''%a%'', ArgString ''%a%'', ArgString ''%%'', ArgString ''%%'',
           ArgString ''%b%'', ArgString ''%b%''])"
  using search_binding_clauses[of "[''t.x'', ''t.y'']" "[dquote, CHR ''a'', CHR '' '', CHR ''b'', dquote]" True]
    search_binding_clauses[of "[''t.x'', ''t.y'']" "''a  b''" False]
  by (simp add: wrappedInQuotes_def dquote_def trim_def trimLeft_def trimRight_def)

text \<open>
  Claim C5 as stated fails for a query that ends with a quotation mark without being
  wrapped in a pair: the code searches for the phrase \<open>foo bar\<close> in one clause, not for
  the two words. It fails as well for two words separated by a tab, which the code
  searches for as one word.
\<close>

theorem search_unwrapped_quote_counterexample:
  "\<not> wrappedInQuotes (''foo bar'' @ [dquote])
   \<and> getSearchBinding [''studios.name''] (''foo bar'' @ [dquote]) False
       = (''(studios.name LIKE ?)'', [ArgString ''%foo bar%''])
   \<and> getSearchBinding [''studios.name''] (''foo bar'' @ [dquote]) False
       \<noteq> (''(studios.name LIKE ? OR studios.name LIKE ?)'',
           [ArgString ''%foo%'', ArgString (''%bar'' @ [dquote] @ ''%'')])
   \<and> getSearchBinding [''studios.name''] (''a'' @ [tab] @ ''b'') False
       = (''(studios.name LIKE ?)'', [ArgString (''%a'' @ [tab] @ ''b%'')])
   \<and> getSearchBinding [''studios.name''] (''a'' @ [tab] @ ''b'') False
       \<noteq> (''(studios.name LIKE ? OR studios.name LIKE ?)'', [ArgString ''%a%'', ArgString ''%b%''])"
  by (simp add: wrappedInQuotes_def dquote_def tab_def getSearchBinding_closed trim_def trimLeft_def
        trimRight_def)

subsection \<open>Updates and transactions\<close>

lemma sqlGenKeysLoop_full:
  "sqlGenKeysLoop fs False query =
     (if list_ex unsupportedField fs then Inl ReflectPanic
      else Inr (query @ map keyClause (setColumns fs)))"
proof (induction fs arbitrary: query)
  case Nil
  show ?case by (simp add: setColumns_def)
next
  case (Cons f fs)
  obtain rawKey v where f: "f = (rawKey, v)" by (cases f)
  show ?case
  proof (cases "firstField CHR '','' rawKey = ''id''")
    case True
    then show ?thesis
      unfolding f by (simp add: Cons.IH setColumns_def columnOf_def unsupportedField_def)
  next
    case False
    then show ?thesis
      unfolding f
      by (cases v) (simp_all add: Cons.IH setColumns_def columnOf_def unsupportedField_def)
  qed
qed

lemma SQLGenKeys_full:
  "SQLGenKeys fs =
     (if list_ex unsupportedField fs then Inl ReflectPanic
      else Inr (joinStrings (map keyClause (setColumns fs)) '', ''))"
  by (simp add: SQLGenKeys_def sqlGenKeys_def sqlGenKeysLoop_full)

lemma setColumns_no_id: "''id'' \<notin> set (setColumns fs)"
  by (auto simp: setColumns_def)

lemma Update_statement:
  "Update env s (Some n) lg =
     (case SQLGenKeys (reflectFields s) of
        Inl p \<Rightarrow> (Inl p, lg)
      | Inr keys \<Rightarrow>
          (let stmt = ''UPDATE studios SET '' @ keys @ '' WHERE studios.id = :id'';
               lg1 = lg @ [(Tx n, CallNamedExec stmt s)]
           in case namedExec env lg (Tx n) stmt s of
                Inl err \<Rightarrow> (Inr (None, Some err), lg1)
              | Inr result \<Rightarrow>
                  (case getStudio env lg1 (Tx n) ''SELECT * FROM studios WHERE id = ? LIMIT 1'' [ArgInt (ID s)] of
                     Inl err \<Rightarrow> (Inr (None, Some err), lg1 @ [(Tx n, CallGet ''SELECT * FROM studios WHERE id = ? LIMIT 1'' [ArgInt (ID s)])])
                   | Inr stored \<Rightarrow> (Inr (Some stored, None), lg1 @ [(Tx n, CallGet ''SELECT * FROM studios WHERE id = ? LIMIT 1'' [ArgInt (ID s)])]))))"
  by (simp add: Update_def ensureTx_def txNamedExec_def txGetStudio_def derefTx_def Let_def
        split: sum.splits)

lemma Update_log_head:
  "SQLGenKeys (reflectFields s) = Inr keys \<Longrightarrow>
     take 1 (drop (length lg) (snd (Update env s (Some n) lg)))
       = [(Tx n, CallNamedExec (''UPDATE studios SET '' @ keys @ '' WHERE studios.id = :id'') s)]"
  by (simp add: Update_statement Let_def split: sum.splits)

lemma Update_isl:
  "isl (fst (Update env s (Some n) lg)) = isl (SQLGenKeys (reflectFields s))"
  by (simp add: Update_statement Let_def split: sum.splits)

text \<open>
  Claim C9. For a full record, the keys that \<open>SQLGenKeys\<close> generates are \<open>column=:column\<close>,
  joined by commas, for exactly the fields whose column is not \<open>id\<close> and whose value is not
  empty under the convention, in the order of the fields; a field of a type outside the
  convention makes \<open>reflect\<close> panic instead. \<open>Update\<close> puts these keys between
  \<open>UPDATE studios SET\<close> and the WHERE clause of the statement it executes first.
\<close>

theorem update_set_clause:
  "SQLGenKeys fs =
     (if list_ex unsupportedField fs then Inl ReflectPanic
      else Inr (joinStrings (map keyClause (setColumns fs)) '', ''))
   \<and> setColumns fs = map columnOf (filter (\<lambda>f. columnOf f \<noteq> ''id'' \<and> \<not> emptyValue (snd f)) fs)
   \<and> ''id'' \<notin> set (setColumns fs)
   \<and> (case SQLGenKeys (reflectFields s) of
         Inl p \<Rightarrow> Update env s (Some n) lg = (Inl p, lg)
       | Inr keys \<Rightarrow>
           take 1 (drop (length lg) (snd (Update env s (Some n) lg)))
             = [(Tx n, CallNamedExec (''UPDATE studios SET '' @ keys @ '' WHERE studios.id = :id'') s)])"
proof -
  have upd: "(case SQLGenKeys (reflectFields s) of
         Inl p \<Rightarrow> Update env s (Some n) lg = (Inl p, lg)
       | Inr keys \<Rightarrow>
           take 1 (drop (length lg) (snd (Update env s (Some n) lg)))
             = [(Tx n, CallNamedExec (''UPDATE studios SET '' @ keys @ '' WHERE studios.id = :id'') s)])"
  proof (cases "SQLGenKeys (reflectFields s)")
    case (Inl p)
    then show ?thesis by (simp add: Update_statement)
  next
    case (Inr keys)
    then show ?thesis using Update_log_head[OF Inr] by simp
  qed
  show ?thesis
    using upd SQLGenKeys_full[of fs] setColumns_no_id[of fs] by (simp add: setColumns_def)
qed

text \<open>
  Claim C9 for a studio with a nil image, an invalid URL and a zero creation time: the
  statement sets the checksum, the name and the update time.
\<close>

theorem update_set_clause_witness:
  "SQLGenKeys (reflectFields exampleStudio) = Inr ''checksum=:checksum, name=:name, updated_at=:updated_at''
   \<and> setColumns (reflectFields exampleStudio) = [''checksum'', ''name'', ''updated_at'']
   \<and> take 1 (drop 0 (snd (Update quietEnv exampleStudio (Some 1) [])))
       = [(Tx 1, CallNamedExec
            ''UPDATE studios SET checksum=:checksum, name=:name, updated_at=:updated_at WHERE studios.id = :id''
            exampleStudio)]"
proof -
  have k: "SQLGenKeys (reflectFields exampleStudio) = Inr ''checksum=:checksum, name=:name, updated_at=:updated_at''"
    by (simp add: exampleStudio_def SQLGenKeys_def sqlGenKeys_def firstField_def keyClause_def)
  have c: "setColumns (reflectFields exampleStudio) = [''checksum'', ''name'', ''updated_at'']"
    by (simp add: exampleStudio_def setColumns_def columnOf_def firstField_def)
  show ?thesis
    using update_set_clause[where fs="reflectFields exampleStudio" and s=exampleStudio and env=quietEnv and n=1 and lg="[]"] k c
    by simp
qed

lemma Create_None: "Create env s None lg = (Inl (PanicMsg ''must use a transaction''), lg)"
  by (simp add: Create_def ensureTx_def)

lemma Update_None: "Update env s None lg = (Inl (PanicMsg ''must use a transaction''), lg)"
  by (simp add: Update_def ensureTx_def)

lemma Destroy_None: "Destroy env i None lg = (Inl NilDereference, lg)"
  by (simp add: Destroy_def txExec_def derefTx_def)

lemma Create_Some:
  "(\<exists>r. fst (Create env s (Some n) lg) = Inr r)
   \<and> take 1 (drop (length lg) (snd (Create env s (Some n) lg)))
       = [(Tx n, CallNamedExec
            (''INSERT INTO studios (image, checksum, name, url, created_at, updated_at)''
               @ [nl, tab, tab, tab, tab]
               @ ''VALUES (:image, :checksum, :name, :url, :created_at, :updated_at)''
               @ [nl, tab, tab]) s)]"
  by (simp add: Create_def ensureTx_def txNamedExec_def txGetStudio_def derefTx_def split: sum.splits)

lemma Destroy_Some:
  "(\<exists>r. fst (Destroy env i (Some n) lg) = Inr r)
   \<and> take 1 (drop (length lg) (snd (Destroy env i (Some n) lg)))
       = [(Tx n, CallExec ''UPDATE scenes SET studio_id = null WHERE studio_id = ?'' [ArgString i])]"
  by (simp add: Destroy_def executeDeleteQuery_def txExec_def derefTx_def Let_def split: sum.splits)

text \<open>
  Claim C7. With a nil transaction \<open>Create\<close> and \<open>Update\<close> panic in \<open>ensureTx\<close> and
  \<open>Destroy\<close> panics on its first call through the nil pointer, each before any statement
  is executed; none returns an error. With a transaction \<open>Create\<close> and \<open>Destroy\<close> never
  panic and execute their first statement on it, and \<open>Update\<close> panics exactly when the
  generation of its keys does, executing its statement otherwise.
\<close>

theorem mutations_require_transaction:
  "Create env s None lg = (Inl (PanicMsg ''must use a transaction''), lg)
   \<and> Update env s None lg = (Inl (PanicMsg ''must use a transaction''), lg)
   \<and> Destroy env i None lg = (Inl NilDereference, lg)
   \<and> (\<exists>r. fst (Create env s (Some n) lg) = Inr r)
   \<and> take 1 (drop (length lg) (snd (Create env s (Some n) lg)))
       = [(Tx n, CallNamedExec
            (''INSERT INTO studios (image, checksum, name, url, created_at, updated_at)''
               @ [nl, tab, tab, tab, tab]
               @ ''VALUES (:image, :checksum, :name, :url, :created_at, :updated_at)''
               @ [nl, tab, tab]) s)]
   \<and> (\<exists>r. fst (Destroy env i (Some n) lg) = Inr r)
   \<and> take 1 (drop (length lg) (snd (Destroy env i (Some n) lg)))
       = [(Tx n, CallExec ''UPDATE scenes SET studio_id = null WHERE studio_id = ?'' [ArgString i])]
   \<and> isl (fst (Update env s (Some n) lg)) = isl (SQLGenKeys (reflectFields s))
   \<and> (\<not> list_ex unsupportedField (reflectFields s) \<longrightarrow>
        (\<exists>r. fst (Update env s (Some n) lg) = Inr r)
        \<and> take 1 (drop (length lg) (snd (Update env s (Some n) lg)))
            = [(Tx n, CallNamedExec
                 (''UPDATE studios SET '' @ joinStrings (map keyClause (setColumns (reflectFields s))) '', ''
                    @ '' WHERE studios.id = :id'') s)])"
proof -
  have upd: "\<not> list_ex unsupportedField (reflectFields s) \<longrightarrow>
        (\<exists>r. fst (Update env s (Some n) lg) = Inr r)
        \<and> take 1 (drop (length lg) (snd (Update env s (Some n) lg)))
            = [(Tx n, CallNamedExec
                 (''UPDATE studios SET '' @ joinStrings (map keyClause (setColumns (reflectFields s))) '', ''
                    @ '' WHERE studios.id = :id'') s)]"
  proof
    assume ok: "\<not> list_ex unsupportedField (reflectFields s)"
    then have k: "SQLGenKeys (reflectFields s) = Inr (joinStrings (map keyClause (setColumns (reflectFields s))) '', '')"
      by (simp add: SQLGenKeys_full)
    have "\<not> isl (fst (Update env s (Some n) lg))" using k by (simp add: Update_isl)
    then have "\<exists>r. fst (Update env s (Some n) lg) = Inr r"
      by (cases "fst (Update env s (Some n) lg)") simp_all
    then show "(\<exists>r. fst (Update env s (Some n) lg) = Inr r)
        \<and> take 1 (drop (length lg) (snd (Update env s (Some n) lg)))
            = [(Tx n, CallNamedExec
                 (''UPDATE studios SET '' @ joinStrings (map keyClause (setColumns (reflectFields s))) '', ''
                    @ '' WHERE studios.id = :id'') s)]"
      using Update_log_head[OF k] by simp
  qed
  show ?thesis
    using upd Create_Some[of env s n lg] Destroy_Some[of env i n lg]
    by (simp only: Create_None Update_None Destroy_None Update_isl simp_thms)
qed

text \<open>
  Claim C7 for a studio all of whose fields have types of the convention.
\<close>

theorem mutations_require_transaction_witness:
  "\<not> list_ex unsupportedField (reflectFields exampleStudio)
   \<and> Update quietEnv exampleStudio None [] = (Inl (PanicMsg ''must use a transaction''), [])
   \<and> Destroy quietEnv ''7'' None [] = (Inl NilDereference, [])
   \<and> fst (Update quietEnv exampleStudio (Some 1) []) = Inr (None, Some ErrNoRows)
   \<and> fst (Destroy quietEnv ''7'' (Some 1) []) = Inr None"
proof -
  have ok: "\<not> list_ex unsupportedField (reflectFields exampleStudio)"
    by (simp add: exampleStudio_def unsupportedField_def)
  have u: "fst (Update quietEnv exampleStudio (Some 1) []) = Inr (None, Some ErrNoRows)"
    by (simp add: Update_statement SQLGenKeys_full ok quietEnv_def Let_def)
  have d: "fst (Destroy quietEnv ''7'' (Some 1) []) = Inr None"
    by (simp add: Destroy_def executeDeleteQuery_def txExec_def derefTx_def quietEnv_def Let_def)
  show ?thesis
    using mutations_require_transaction[where env=quietEnv and s=exampleStudio and lg="[]" and i="''7''" and n=1] ok u d
    by simp
qed

subsection \<open>Queries of the studio builder\<close>

lemma queryStudios_log:
  "snd (queryStudios env query args tx lg)
     = lg @ [(case tx of Some n \<Rightarrow> Tx n | None \<Rightarrow> DB, CallQueryx query args)]"
  by (simp add: queryStudios_def Let_def split: sum.splits option.splits)

lemma queryStudios_panic:
  "fst (queryStudios env query args tx lg) = Inl p \<Longrightarrow> p = NilDereference"
  by (simp add: queryStudios_def Let_def split: sum.splits option.splits if_splits)

lemma Find_log:
  "snd (Find env i tx lg)
     = lg @ [(case tx of Some n \<Rightarrow> Tx n | None \<Rightarrow> DB,
              CallQueryx ''SELECT * FROM studios WHERE id = ? LIMIT 1'' [ArgInt i])]"
proof -
  obtain r lg1 where q: "queryStudios env ''SELECT * FROM studios WHERE id = ? LIMIT 1'' [ArgInt i] tx lg = (r, lg1)"
    by (cases "queryStudios env ''SELECT * FROM studios WHERE id = ? LIMIT 1'' [ArgInt i] tx lg")
  have "lg1 = lg @ [(case tx of Some n \<Rightarrow> Tx n | None \<Rightarrow> DB,
              CallQueryx ''SELECT * FROM studios WHERE id = ? LIMIT 1'' [ArgInt i])]"
    using queryStudios_log[of env "''SELECT * FROM studios WHERE id = ? LIMIT 1''" "[ArgInt i]" tx lg] q
    by simp
  then show ?thesis
    unfolding Find_def queryStudio_def q
    by (cases r) (auto split: list.splits prod.splits)
qed

lemma Find_panic: "fst (Find env i tx lg) = Inl p \<Longrightarrow> p = NilDereference"
proof -
  assume a: "fst (Find env i tx lg) = Inl p"
  obtain r lg1 where q: "queryStudios env ''SELECT * FROM studios WHERE id = ? LIMIT 1'' [ArgInt i] tx lg = (r, lg1)"
    by (cases "queryStudios env ''SELECT * FROM studios WHERE id = ? LIMIT 1'' [ArgInt i] tx lg")
  have "r = Inl p"
    using a unfolding Find_def queryStudio_def q
    by (cases r) (auto split: list.splits prod.splits if_splits)
  then have "fst (queryStudios env ''SELECT * FROM studios WHERE id = ? LIMIT 1'' [ArgInt i] tx lg) = Inl p"
    using q by simp
  then show ?thesis by (rule queryStudios_panic)
qed

lemma findEach_log: "\<exists>ext. snd (findEach env ids studios lg) = lg @ ext"
proof (induction ids arbitrary: studios lg)
  case Nil
  show ?case by simp
next
  case (Cons i ids)
  obtain r lg1 where f: "Find env i None lg = (r, lg1)" by (cases "Find env i None lg")
  have lg1: "lg1 = lg @ [(DB, CallQueryx ''SELECT * FROM studios WHERE id = ? LIMIT 1'' [ArgInt i])]"
    using Find_log[of env i None lg] f by simp
  show ?case
  proof (cases r)
    case (Inl p)
    then show ?thesis using f lg1 by simp
  next
    case (Inr res)
    obtain studio err where res: "res = (studio, err)" by (cases res)
    obtain ext where "snd (findEach env ids (studios @ [studio]) lg1) = lg1 @ ext"
      using Cons.IH by blast
    then show ?thesis using f Inr res lg1 by simp
  qed
qed

lemma findEach_panic: "fst (findEach env ids studios lg) = Inl p \<Longrightarrow> p = NilDereference"
proof (induction ids arbitrary: studios lg)
  case Nil
  then show ?case by simp
next
  case (Cons i ids)
  obtain r lg1 where f: "Find env i None lg = (r, lg1)" by (cases "Find env i None lg")
  show ?case
  proof (cases r)
    case (Inl q)
    then have "p = q" using Cons.prems f by simp
    then show ?thesis using Find_panic[of env i None lg q] f Inl by simp
  next
    case (Inr res)
    obtain studio err where res: "res = (studio, err)" by (cases res)
    have "fst (findEach env ids (studios @ [studio]) lg1) = Inl p"
      using Cons.prems f Inr res by simp
    then show ?thesis by (rule Cons.IH)
  qed
qed

lemma getPagination_total: "\<exists>pg. getPagination (Some ff) = Inr pg"
  by (simp add: getPagination_def Let_def)

lemma Query_unfold:
  assumes "getPagination (Some ff) = Inr pg"
  shows "Query env rnd (Some ff) lg =
     (case executeFindQuery env ''studios'' studioBody [] (getStudioSort rnd (Some ff) @ pg)
             (studioWhere ff) [] lg of
        (Inl p, lg1) \<Rightarrow> (Inl p, lg1)
      | (Inr (idsResult, countResult), lg1) \<Rightarrow>
          (case findEach env idsResult [] lg1 of
             (Inl p, lg2) \<Rightarrow> (Inl p, lg2)
           | (Inr studios, lg2) \<Rightarrow> (Inr (studios, countResult), lg2)))"
proof -
  have w: "(case Q ff of None \<Rightarrow> [] | Some q \<Rightarrow> if q \<noteq> [] then [] @ [getSearch [''studios.name''] q] else [])
             = studioWhere ff"
    by (simp add: studioWhere_def split: option.splits)
  have b: "selectDistinctIDs ''studios'' @ [nl, tab, tab] @ ''left join scenes on studios.id = scenes.studio_id''
                   @ [tab, tab, nl, tab] = studioBody"
    by (simp add: studioBody_def selectDistinctIDs_def getColumn_def)
  show ?thesis
    unfolding Query_def Let_def option.case w b assms sum.case ..
qed

lemma Query_log_head:
  assumes "getPagination (Some ff) = Inr pg"
  shows "take 2 (drop (length lg) (snd (Query env rnd (Some ff) lg))) =
     [(DB, CallGet (buildCountQuery (findBody ''studios'' studioBody (studioWhere ff) [])) []),
      (DB, CallSelect (findBody ''studios'' studioBody (studioWhere ff) [] @ getStudioSort rnd (Some ff) @ pg) [])]"
proof -
  let ?sp = "getStudioSort rnd (Some ff) @ pg"
  obtain r lg1 where e: "executeFindQuery env ''studios'' studioBody [] ?sp (studioWhere ff) [] lg = (r, lg1)"
    by (cases "executeFindQuery env ''studios'' studioBody [] ?sp (studioWhere ff) [] lg")
  have lg1: "lg1 = lg @ [(DB, CallGet (buildCountQuery (findBody ''studios'' studioBody (studioWhere ff) [])) []),
      (DB, CallSelect (findBody ''studios'' studioBody (studioWhere ff) [] @ ?sp) [])]"
    using executeFindQuery_log[of env "''studios''" studioBody "[]" ?sp "studioWhere ff" "[]" lg] e by simp
  show ?thesis
  proof (cases r)
    case (Inl p)
    then show ?thesis unfolding Query_unfold[OF assms] e using lg1 by simp
  next
    case (Inr res)
    obtain ids n where res: "res = (ids, n)" by (cases res)
    obtain ext where ext: "snd (findEach env ids [] lg1) = lg1 @ ext"
      using findEach_log by blast
    obtain r2 lg2 where f: "findEach env ids [] lg1 = (r2, lg2)" by (cases "findEach env ids [] lg1")
    have "lg2 = lg1 @ ext" using ext f by simp
    then have "snd (Query env rnd (Some ff) lg) = lg1 @ ext"
      unfolding Query_unfold[OF assms] e Inr res using f by (cases r2) simp_all
    then show ?thesis using lg1 by simp
  qed
qed

lemma Query_no_pagination_panic:
  "fst (Query env rnd (Some ff) lg) \<noteq> Inl (PanicMsg msg)"
proof
  assume a: "fst (Query env rnd (Some ff) lg) = Inl (PanicMsg msg)"
  obtain pg where pg: "getPagination (Some ff) = Inr pg" using getPagination_total by blast
  let ?sp = "getStudioSort rnd (Some ff) @ pg"
  obtain r lg1 where e: "executeFindQuery env ''studios'' studioBody [] ?sp (studioWhere ff) [] lg = (r, lg1)"
    by (cases "executeFindQuery env ''studios'' studioBody [] ?sp (studioWhere ff) [] lg")
  show False
  proof (cases r)
    case (Inl p)
    then have "p = PanicMsg msg" using a unfolding Query_unfold[OF pg] e by simp
    moreover have "fst (executeFindQuery env ''studios'' studioBody [] ?sp (studioWhere ff) [] lg) = Inl p"
      using e Inl by simp
    ultimately show False
      by (simp add: executeFindQuery_result Let_def split: sum.splits)
  next
    case (Inr res)
    obtain ids n where res: "res = (ids, n)" by (cases res)
    obtain r2 lg2 where f: "findEach env ids [] lg1 = (r2, lg2)" by (cases "findEach env ids [] lg1")
    have "r2 = Inl (PanicMsg msg)"
      using a unfolding Query_unfold[OF pg] e Inr res using f by (cases r2) simp_all
    then have "fst (findEach env ids [] lg1) = Inl (PanicMsg msg)" using f by simp
    then show False using findEach_panic by blast
  qed
qed

lemma Query_None: "Query env rnd None lg = Query env rnd (Some emptyFindFilter) lg"
  by (simp add: Query_def)

lemma empty_pagination: "getPagination (Some emptyFindFilter) = Inr '' LIMIT 25 OFFSET 0 ''"
  by (simp add: getPagination_def emptyFindFilter_def itoa_def digitChar_def)

lemma empty_sort: "getStudioSort rnd (Some emptyFindFilter) = '' ORDER BY studios.name COLLATE NOCASE ASC''"
  by (simp add: getStudioSort_def emptyFindFilter_def GetSort_def GetDirection_def getSort_def getColumn_def)

lemma empty_where: "studioWhere emptyFindFilter = []"
  by (simp add: studioWhere_def emptyFindFilter_def)

lemma Query_quiet:
  "fst (Query quietEnv rnd None []) = Inr ([], 0)"
  unfolding Query_None Query_unfold[OF empty_pagination]
  by (simp add: executeFindQuery_unfold Let_def runCountQuery_def runIdsQuery_def quietEnv_def)

text \<open>
  Claim C10. \<open>Query\<close> with a nil filter is \<open>Query\<close> with a fresh empty filter. It never
  raises the panic that the pagination resolver raises on a nil filter: it executes the
  count query and the id query without a WHERE clause, ordered by \<open>studios.name\<close> without
  regard to case, ascending, with \<open>LIMIT 25 OFFSET 0\<close>, and its outcome is that of this
  find followed by the lookups of the ids found; against a store that finds nothing it
  returns no studios and the count 0.
\<close>

theorem query_nil_filter_defaults:
  "Query env rnd None lg = Query env rnd (Some emptyFindFilter) lg
   \<and> getPagination None = Inl (PanicMsg ''nil find filter for pagination'')
   \<and> fst (Query env rnd None lg) \<noteq> Inl (PanicMsg ''nil find filter for pagination'')
   \<and> take 2 (drop (length lg) (snd (Query env rnd None lg))) =
       [(DB, CallGet (''SELECT COUNT(*) as count FROM ('' @ studioBody @ '' GROUP BY studios.id ''
                        @ '') as temp'') []),
        (DB, CallSelect (studioBody @ '' GROUP BY studios.id ''
                           @ '' ORDER BY studios.name COLLATE NOCASE ASC'' @ '' LIMIT 25 OFFSET 0 '') [])]
   \<and> Query env rnd None lg =
       (case executeFindQuery env ''studios'' studioBody []
               ('' ORDER BY studios.name COLLATE NOCASE ASC'' @ '' LIMIT 25 OFFSET 0 '') [] [] lg of
          (Inl p, lg1) \<Rightarrow> (Inl p, lg1)
        | (Inr (idsResult, countResult), lg1) \<Rightarrow>
            (case findEach env idsResult [] lg1 of
               (Inl p, lg2) \<Rightarrow> (Inl p, lg2)
             | (Inr studios, lg2) \<Rightarrow> (Inr (studios, countResult), lg2)))
   \<and> fst (Query quietEnv rnd None []) = Inr ([], 0)"
proof -
  have head: "take 2 (drop (length lg) (snd (Query env rnd None lg))) =
       [(DB, CallGet (''SELECT COUNT(*) as count FROM ('' @ studioBody @ '' GROUP BY studios.id ''
                        @ '') as temp'') []),
        (DB, CallSelect (studioBody @ '' GROUP BY studios.id ''
                           @ '' ORDER BY studios.name COLLATE NOCASE ASC'' @ '' LIMIT 25 OFFSET 0 '') [])]"
    unfolding Query_None Query_log_head[OF empty_pagination] empty_sort empty_where
    by (simp add: findBody_def buildCountQuery_def)
  have res: "Query env rnd None lg =
       (case executeFindQuery env ''studios'' studioBody []
               ('' ORDER BY studios.name COLLATE NOCASE ASC'' @ '' LIMIT 25 OFFSET 0 '') [] [] lg of
          (Inl p, lg1) \<Rightarrow> (Inl p, lg1)
        | (Inr (idsResult, countResult), lg1) \<Rightarrow>
            (case findEach env idsResult [] lg1 of
               (Inl p, lg2) \<Rightarrow> (Inl p, lg2)
             | (Inr studios, lg2) \<Rightarrow> (Inr (studios, countResult), lg2)))"
    unfolding Query_None Query_unfold[OF empty_pagination] empty_sort empty_where ..
  have nopanic: "fst (Query env rnd None lg) \<noteq> Inl (PanicMsg ''nil find filter for pagination'')"
    unfolding Query_None by (rule Query_no_pagination_panic)
  have nil: "getPagination None = Inl (PanicMsg ''nil find filter for pagination'')"
    by (simp add: getPagination_def)
  show ?thesis
    using head res nopanic nil Query_quiet[of rnd] Query_None[of env rnd lg] by blast
qed

lemma getSearch_word:
  "CHR '' '' \<notin> set q \<Longrightarrow> q \<noteq> [] \<Longrightarrow> hd q \<noteq> dquote \<Longrightarrow> last q \<noteq> dquote \<Longrightarrow>
     getSearch [c] q = ''('' @ c @ '' LIKE '' @ [squote] @ ''%'' @ q @ ''%'' @ [squote] @ '')''"
proof -
  assume a: "CHR '' '' \<notin> set q" and ne: "q \<noteq> []" and h: "hd q \<noteq> dquote" and l: "last q \<noteq> dquote"
  have t: "trim q [dquote] = q" using ne h l by (simp add: trim_id)
  have s: "splitOn CHR '' '' q = [q]" using a by (induction q) auto
  show ?thesis by (simp add: getSearch_def Let_def t s)
qed

lemma search_pagination:
  "getPagination (Some (emptyFindFilter\<lparr>Q := Some q\<rparr>)) = Inr '' LIMIT 25 OFFSET 0 ''"
  by (simp add: getPagination_def emptyFindFilter_def itoa_def digitChar_def)

lemma search_sort:
  "getStudioSort rnd (Some (emptyFindFilter\<lparr>Q := Some q\<rparr>)) = '' ORDER BY studios.name COLLATE NOCASE ASC''"
  by (simp add: getStudioSort_def emptyFindFilter_def GetSort_def GetDirection_def getSort_def getColumn_def)

lemma search_statements:
  assumes "getSearch [''studios.name''] q = w" and "q \<noteq> []"
  shows "take 2 (drop (length lg) (snd (Query env rnd (Some (emptyFindFilter\<lparr>Q := Some q\<rparr>)) lg))) =
       [(DB, CallGet (''SELECT COUNT(*) as count FROM ('' @ studioBody @ '' WHERE '' @ w
                        @ '' GROUP BY studios.id '' @ '') as temp'') []),
        (DB, CallSelect (studioBody @ '' WHERE '' @ w @ '' GROUP BY studios.id ''
                           @ '' ORDER BY studios.name COLLATE NOCASE ASC'' @ '' LIMIT 25 OFFSET 0 '') [])]"
proof -
  have wh: "studioWhere (emptyFindFilter\<lparr>Q := Some q\<rparr>) = [w]"
    using assms by (simp add: studioWhere_def)
  show ?thesis
    unfolding Query_log_head[OF search_pagination] search_sort wh
    by (simp add: findBody_def buildCountQuery_def)
qed

text \<open>
  Claim C8 fails on the code. \<open>Query\<close> builds its search clause with \<open>getSearch\<close>, which
  writes the words of the query into the statement between quotes; the argument list
  stays empty. The searches for \<open>foo\<close> and for \<open>bar\<close>, one word each over the same column,
  execute different statements.
\<close>

theorem studio_search_text_in_statement:
  "getSearch [''studios.name''] ''foo'' = ''(studios.name LIKE '' @ [squote] @ ''%foo%'' @ [squote] @ '')''
   \<and> getSearch [''studios.name''] ''bar'' = ''(studios.name LIKE '' @ [squote] @ ''%bar%'' @ [squote] @ '')''
   \<and> take 2 (drop (length lg) (snd (Query env rnd (Some (emptyFindFilter\<lparr>Q := Some ''foo''\<rparr>)) lg))) =
       [(DB, CallGet (''SELECT COUNT(*) as count FROM ('' @ studioBody
                        @ '' WHERE (studios.name LIKE '' @ [squote] @ ''%foo%'' @ [squote] @ '')''
                        @ '' GROUP BY studios.id '' @ '') as temp'') []),
        (DB, CallSelect (studioBody
                        @ '' WHERE (studios.name LIKE '' @ [squote] @ ''%foo%'' @ [squote] @ '')''
                        @ '' GROUP BY studios.id ''
                        @ '' ORDER BY studios.name COLLATE NOCASE ASC'' @ '' LIMIT 25 OFFSET 0 '') [])]
   \<and> take 2 (drop (length lg) (snd (Query env rnd (Some (emptyFindFilter\<lparr>Q := Some ''bar''\<rparr>)) lg))) =
       [(DB, CallGet (''SELECT COUNT(*) as count FROM ('' @ studioBody
                        @ '' WHERE (studios.name LIKE '' @ [squote] @ ''%bar%'' @ [squote] @ '')''
                        @ '' GROUP BY studios.id '' @ '') as temp'') []),
        (DB, CallSelect (studioBody
                        @ '' WHERE (studios.name LIKE '' @ [squote] @ ''%bar%'' @ [squote] @ '')''
                        @ '' GROUP BY studios.id ''
                        @ '' ORDER BY studios.name COLLATE NOCASE ASC'' @ '' LIMIT 25 OFFSET 0 '') [])]
   \<and> take 2 (drop (length lg) (snd (Query env rnd (Some (emptyFindFilter\<lparr>Q := Some ''foo''\<rparr>)) lg)))
       \<noteq> take 2 (drop (length lg) (snd (Query env rnd (Some (emptyFindFilter\<lparr>Q := Some ''bar''\<rparr>)) lg)))"
proof -
  have foo: "getSearch [''studios.name''] ''foo'' = ''(studios.name LIKE '' @ [squote] @ ''%foo%'' @ [squote] @ '')''"
    using getSearch_word[of "''foo''" "''studios.name''"] by (simp add: dquote_def)
  have bar: "getSearch [''studios.name''] ''bar'' = ''(studios.name LIKE '' @ [squote] @ ''%bar%'' @ [squote] @ '')''"
    using getSearch_word[of "''bar''" "''studios.name''"] by (simp add: dquote_def)
  have sfoo: "take 2 (drop (length lg) (snd (Query env rnd (Some (emptyFindFilter\<lparr>Q := Some ''foo''\<rparr>)) lg))) =
       [(DB, CallGet (''SELECT COUNT(*) as count FROM ('' @ studioBody
                        @ '' WHERE (studios.name LIKE '' @ [squote] @ ''%foo%'' @ [squote] @ '')''
                        @ '' GROUP BY studios.id '' @ '') as temp'') []),
        (DB, CallSelect (studioBody
                        @ '' WHERE (studios.name LIKE '' @ [squote] @ ''%foo%'' @ [squote] @ '')''
                        @ '' GROUP BY studios.id ''
                        @ '' ORDER BY studios.name COLLATE NOCASE ASC'' @ '' LIMIT 25 OFFSET 0 '') [])]"
    using search_statements[OF foo, of lg env rnd] by simp
  have sbar: "take 2 (drop (length lg) (snd (Query env rnd (Some (emptyFindFilter\<lparr>Q := Some ''bar''\<rparr>)) lg))) =
       [(DB, CallGet (''SELECT COUNT(*) as count FROM ('' @ studioBody
                        @ '' WHERE (studios.name LIKE '' @ [squote] @ ''%bar%'' @ [squote] @ '')''
                        @ '' GROUP BY studios.id '' @ '') as temp'') []),
        (DB, CallSelect (studioBody
                        @ '' WHERE (studios.name LIKE '' @ [squote] @ ''%bar%'' @ [squote] @ '')''
                        @ '' GROUP BY studios.id ''
                        @ '' ORDER BY studios.name COLLATE NOCASE ASC'' @ '' LIMIT 25 OFFSET 0 '') [])]"
    using search_statements[OF bar, of lg env rnd] by simp
  have ne: "take 2 (drop (length lg) (snd (Query env rnd (Some (emptyFindFilter\<lparr>Q := Some ''foo''\<rparr>)) lg)))
       \<noteq> take 2 (drop (length lg) (snd (Query env rnd (Some (emptyFindFilter\<lparr>Q := Some ''bar''\<rparr>)) lg)))"
    unfolding sfoo sbar by simp
  show ?thesis using foo bar sfoo sbar ne by blast
qed

subsection \<open>Name matching\<close>

lemma hasPrefix_iff: "hasPrefix s p \<longleftrightarrow> (\<exists>r. s = p @ r)"
  by (induction s p rule: hasPrefix.induct) auto

lemma flankAfter_iff: "flankAfter post \<longleftrightarrow> (post = [] \<or> isFlank (hd post))"
  by (cases post) (simp_all add: flankAfter_def)

lemma tokenFrom_iff:
  "tokenFrom pat fb path \<longleftrightarrow>
     (\<exists>pre post. path = pre @ pat @ post
        \<and> (if pre = [] then fb else isFlank (last pre)) \<and> flankAfter post)"
proof (induction path arbitrary: fb)
  case Nil
  show ?case by (auto simp: flankAfter_def)
next
  case (Cons c cs)
  have here: "(fb \<and> hasPrefix (c # cs) pat \<and> flankAfter (drop (length pat) (c # cs)))
      \<longleftrightarrow> (\<exists>post. c # cs = pat @ post \<and> fb \<and> flankAfter post)"
    by (auto simp: hasPrefix_iff)
  have later: "tokenFrom pat (isFlank c) cs
      \<longleftrightarrow> (\<exists>pre' post. c # cs = (c # pre') @ pat @ post
            \<and> isFlank (last (c # pre')) \<and> flankAfter post)"
    unfolding Cons.IH by auto
  have split: "(\<exists>pre post. c # cs = pre @ pat @ post
        \<and> (if pre = [] then fb else isFlank (last pre)) \<and> flankAfter post)
     \<longleftrightarrow> (\<exists>post. c # cs = pat @ post \<and> fb \<and> flankAfter post)
         \<or> (\<exists>pre' post. c # cs = (c # pre') @ pat @ post
               \<and> isFlank (last (c # pre')) \<and> flankAfter post)"
  proof
    assume "\<exists>pre post. c # cs = pre @ pat @ post
        \<and> (if pre = [] then fb else isFlank (last pre)) \<and> flankAfter post"
    then obtain pre post where p: "c # cs = pre @ pat @ post"
      "if pre = [] then fb else isFlank (last pre)" "flankAfter post" by blast
    show "(\<exists>post. c # cs = pat @ post \<and> fb \<and> flankAfter post)
         \<or> (\<exists>pre' post. c # cs = (c # pre') @ pat @ post
               \<and> isFlank (last (c # pre')) \<and> flankAfter post)"
    proof (cases pre)
      case Nil
      then show ?thesis using p by auto
    next
      case (Cons d pre')
      then have "d = c" using p(1) by simp
      then show ?thesis using p Cons by (intro disjI2 exI[of _ pre'] exI[of _ post]) auto
    qed
  next
    assume "(\<exists>post. c # cs = pat @ post \<and> fb \<and> flankAfter post)
         \<or> (\<exists>pre' post. c # cs = (c # pre') @ pat @ post
               \<and> isFlank (last (c # pre')) \<and> flankAfter post)"
    then show "\<exists>pre post. c # cs = pre @ pat @ post
        \<and> (if pre = [] then fb else isFlank (last pre)) \<and> flankAfter post"
    proof
      assume "\<exists>post. c # cs = pat @ post \<and> fb \<and> flankAfter post"
      then obtain post where "c # cs = [] @ pat @ post" "fb" "flankAfter post" by auto
      then show ?thesis by (intro exI[of _ "[]"] exI[of _ post]) simp
    next
      assume "\<exists>pre' post. c # cs = (c # pre') @ pat @ post
               \<and> isFlank (last (c # pre')) \<and> flankAfter post"
      then obtain pre' post where "c # cs = (c # pre') @ pat @ post"
         "isFlank (last (c # pre'))" "flankAfter post" by blast
      then show ?thesis by (intro exI[of _ "c # pre'"] exI[of _ post]) simp
    qed
  qed
  show ?case
    unfolding tokenFrom.simps here later split ..
qed

lemma toLowerChar_idem: "toLowerChar (toLowerChar c) = toLowerChar c"
  by (simp add: toLowerChar_def)

lemma toLower_idem: "toLower (toLower s) = toLower s"
  by (simp add: toLower_def toLowerChar_idem)

lemma replaceSpaces_space: "replaceSpaces CHR '' '' s = s"
  by (induction s) (simp_all add: replaceSpaces_def)

lemma containsToken_iff:
  "containsToken path pat \<longleftrightarrow>
     (\<exists>pre post. toLower path = pre @ toLower pat @ post
        \<and> (pre = [] \<or> isFlank (last pre)) \<and> (post = [] \<or> isFlank (hd post)))"
  unfolding containsToken_def tokenFrom_iff flankAfter_iff
  by (metis (full_types))

lemma containsToken_lower: "containsToken path (toLower pat) = containsToken path pat"
  by (simp add: containsToken_def toLower_idem)

lemma matches_iff_separator:
  "matches entityName filePath \<longleftrightarrow>
     (\<exists>sep \<in> set separatorChars. containsToken filePath (replaceSpaces sep entityName))"
proof -
  have sp: "CHR '' '' \<in> set separatorChars" by (simp add: separatorChars_def)
  have "matches entityName filePath \<longleftrightarrow>
     containsToken filePath entityName
     \<or> (\<exists>sep \<in> set separatorChars. containsToken filePath (replaceSpaces sep entityName))"
    by (auto simp: matches_def namePatternSet_def list_ex_iff containsToken_lower)
  moreover have "containsToken filePath entityName
     \<longrightarrow> (\<exists>sep \<in> set separatorChars. containsToken filePath (replaceSpaces sep entityName))"
    using sp replaceSpaces_space[of entityName] by metis
  ultimately show ?thesis by blast
qed

lemma claimed_paths:
  "generateNamePatterns (replaceSpaces CHR ''-'' testName) ''-'' ! 2
     = ''aaa-Foo'' @ [squote] @ ''s-Bar-bbb.mp4''
   \<and> generateFalseNamePattern testName ''-'' = Inr (''Foo'' @ [squote] @ ''s-aaa-Bar.mp4'')"
  by (simp add: generateNamePatterns_def generateFalseNamePattern_def testName_def replaceSpaces_def
        testExtension_def squote_def Let_def)

lemma claimed_matches:
  "matches testName (''aaa-Foo'' @ [squote] @ ''s-Bar-bbb.mp4'')
   \<and> \<not> matches testName (''Foo'' @ [squote] @ ''s-aaa-Bar.mp4'')"
  by code_simp

text \<open>
  Claim C2. The matcher returns true exactly when the lower-cased path contains the
  lower-cased name, its spaces replaced by one of the recognized separators, with the
  start of the path, a separator or a path delimiter before it and the end of the path,
  a separator or a path delimiter after it. For the name \<open>Foo's Bar\<close> the path
  \<open>aaa-Foo's-Bar-bbb.mp4\<close>, which the integration test generates as a path that must
  match, matches, and the path \<open>Foo's-aaa-Bar.mp4\<close>, which it generates as a path that
  must not, does not.
\<close>

theorem matches_whole_token:
  "(matches entityName filePath \<longleftrightarrow>
     (\<exists>sep \<in> set separatorChars. \<exists>pre post.
        toLower filePath = pre @ toLower (replaceSpaces sep entityName) @ post
        \<and> (pre = [] \<or> isFlank (last pre)) \<and> (post = [] \<or> isFlank (hd post))))
   \<and> matches testName (''aaa-Foo'' @ [squote] @ ''s-Bar-bbb.mp4'')
   \<and> \<not> matches testName (''Foo'' @ [squote] @ ''s-aaa-Bar.mp4'')
   \<and> generateNamePatterns (replaceSpaces CHR ''-'' testName) ''-'' ! 2
       = ''aaa-Foo'' @ [squote] @ ''s-Bar-bbb.mp4''
   \<and> generateFalseNamePattern testName ''-'' = Inr (''Foo'' @ [squote] @ ''s-aaa-Bar.mp4'')"
  using claimed_paths claimed_matches
  by (simp only: matches_iff_separator containsToken_iff simp_thms)

text \<open>
  Claim C2 for a lower-case occurrence inside a directory name: the name with a dot for
  its space stands between two slashes.
\<close>

theorem matches_whole_token_witness:
  "matches testName (''dir/foo'' @ [squote] @ ''s.bar/aaa.mp4'')"
proof -
  have "toLower (''dir/foo'' @ [squote] @ ''s.bar/aaa.mp4'')
          = ''dir/'' @ toLower (replaceSpaces CHR ''.'' testName) @ ''/aaa.mp4''
        \<and> (''dir/'' = [] \<or> isFlank (last ''dir/''))
        \<and> (''/aaa.mp4'' = [] \<or> isFlank (hd ''/aaa.mp4''))"
    by (simp add: toLower_def toLowerChar_def replaceSpaces_def testName_def squote_def isFlank_def
          separatorChars_def pathDelimiters_def)
  moreover have "CHR ''.'' \<in> set separatorChars" by (simp add: separatorChars_def)
  ultimately show ?thesis
    using matches_whole_token[of testName "''dir/foo'' @ [squote] @ ''s.bar/aaa.mp4''"] by blast
qed

lemma test_paths_match:
  "list_all (\<lambda>sep. list_all (matches testName) (generateNamePatterns testName sep)
                  \<and> list_all (matches testName) (generateNamePatterns (toLower testName) sep)
                  \<and> list_all (matches testName)
                       (generateNamePatterns (replaceSpaces (hd sep) testName) sep)
                  \<and> map_sum id (matches testName) (generateFalseNamePattern testName sep) = Inr False)
            testSeparators"
  by code_simp

end
